theory Spec2Isabelle
  imports Main
begin

section \<open>Python strings and errors\<close>

text \<open>
  The loaders and the expander of \<^verbatim>\<open>data_loader.py\<close> are sequences of calls into a
  dataframe library. Each call is embedded as a function on lists of cells; a raised
  exception is the \<open>Inl\<close> branch of a sum. Missing cells (\<^verbatim>\<open>NaN\<close>, \<^verbatim>\<open>NaT\<close>) are
  \<open>None\<close>.
\<close>

datatype error = AttributeError | ValueError | TypeError | KeyError | InvalidIndexError

text \<open>
  Python compares two \<^verbatim>\<open>str\<close> values lexicographically by code point; a proper
  prefix is smaller. This is the comparison \<^verbatim>\<open>x <= "20s"\<close> performs on the
  plain strings that \<^verbatim>\<open>Series.apply\<close> hands to \<^verbatim>\<open>assign_age_category\<close>.
\<close>

fun py_str_le :: "string \<Rightarrow> string \<Rightarrow> bool" where
  "py_str_le [] ys = True"
| "py_str_le (x # xs) [] = False"
| "py_str_le (x # xs) (y # ys) =
     (if x = y then py_str_le xs ys else (of_char x :: nat) < of_char y)"

text \<open>\<^verbatim>\<open>str.strip()\<close>: drops the ASCII whitespace at both ends.\<close>

definition py_isspace :: "char \<Rightarrow> bool" where
  "py_isspace c = ((of_char c :: nat) \<in> {9, 10, 11, 12, 13, 28, 29, 30, 31, 32})"

definition py_strip :: "string \<Rightarrow> string" where
  "py_strip s = rev (dropWhile py_isspace (rev (dropWhile py_isspace s)))"

section \<open>Age categories\<close>

text \<open>The ordered categorical \<^verbatim>\<open>age_dtype\<close> of \<^verbatim>\<open>load_patient_info\<close>.\<close>

definition age_categories :: "string list" where
  "age_categories =
     [''0s'', ''10s'', ''20s'', ''30s'', ''40s'', ''50s'', ''60s'', ''70s'', ''80s'',
      ''90s'', ''100s'']"

text \<open>
  \<^verbatim>\<open>astype(CategoricalDtype(categories))\<close>: a value outside the categories becomes
  missing.
\<close>

definition astype_category :: "string list \<Rightarrow> string option \<Rightarrow> string option" where
  "astype_category cats v =
     (case v of None \<Rightarrow> None | Some s \<Rightarrow> if s \<in> set cats then Some s else None)"

text \<open>The position of a decade in the ordered scale, \<open>0s\<close> first.\<close>

fun rank_in :: "string list \<Rightarrow> string \<Rightarrow> nat" where
  "rank_in [] s = 0"
| "rank_in (c # cs) s = (if c = s then 0 else Suc (rank_in cs s))"

definition age_rank :: "string \<Rightarrow> nat" where
  "age_rank s = rank_in age_categories s"

text \<open>\<^verbatim>\<open>assign_age_category\<close>, branch by branch.\<close>

definition assign_age_category :: "string option \<Rightarrow> string option" where
  "assign_age_category x =
     (case x of
        None \<Rightarrow> None
      | Some s \<Rightarrow>
          if py_str_le s ''20s'' then Some ''young''
          else if py_str_le s ''50s'' then Some ''middle''
          else Some ''old'')"

section \<open>The dataframe library, as far as the loaders use it\<close>

text \<open>
  A timestamp is the number of nanoseconds since the epoch; \<^verbatim>\<open>Timedelta.days\<close>
  is the floor of the difference in days.
\<close>

definition ns_per_day :: int where
  "ns_per_day = 86400000000000"

definition timedelta_days :: "int \<Rightarrow> int" where
  "timedelta_days td = td div ns_per_day"

text \<open>What the date parser makes of one string.\<close>

datatype parsed = Unparsable | NaT | Stamp int

text \<open>What a cast to \<^verbatim>\<open>float32\<close> makes of one string: it raises, reads a NaN, or
  reads a number. The floats themselves stay abstract (type \<open>'f\<close>).\<close>

datatype 'f float_cast = CastFails | CastNaN | CastNum 'f

text \<open>
  The library is not part of the repository, so the loaders take its string readers as
  parameters: the date parser \<^verbatim>\<open>read_csv(parse_dates=...)\<close> applies to a cell, the
  date parser of \<^verbatim>\<open>astype("datetime64")\<close>, whether \<^verbatim>\<open>read_csv\<close>'s type
  inference reads a cell as a number, the float it then stores for the cell, and the
  casts of a string cell by \<^verbatim>\<open>astype("float32")\<close> and by \<^verbatim>\<open>astype(float)\<close>.
  Every theorem about a loader holds for every choice of the six.
\<close>

record 'f pandas =
  read_date :: "string \<Rightarrow> parsed"
  cast_date :: "string \<Rightarrow> parsed"
  read_number :: "string \<Rightarrow> bool"
  read_float :: "string \<Rightarrow> 'f option"
  cast_float :: "string \<Rightarrow> 'f float_cast"
  cast_float64 :: "string \<Rightarrow> 'f float_cast"

text \<open>
  A date column after \<^verbatim>\<open>read_csv\<close>: when the file has rows and every cell that is
  present parses, the column is of dtype \<^verbatim>\<open>datetime64\<close>; otherwise the reader
  leaves it as it was, a column of strings. The columns of a file without rows are
  columns of strings.
\<close>

datatype date_column = DatetimeCol "int option list" | ObjectCol "string option list"

definition stamp_of :: "(string \<Rightarrow> parsed) \<Rightarrow> string option \<Rightarrow> int option" where
  "stamp_of p c =
     (case c of
        None \<Rightarrow> None
      | Some s \<Rightarrow> (case p s of Stamp t \<Rightarrow> Some t | NaT \<Rightarrow> None | Unparsable \<Rightarrow> None))"

definition cell_parses :: "(string \<Rightarrow> parsed) \<Rightarrow> string option \<Rightarrow> bool" where
  "cell_parses p c = (case c of None \<Rightarrow> True | Some s \<Rightarrow> p s \<noteq> Unparsable)"

definition parse_dates :: "(string \<Rightarrow> parsed) \<Rightarrow> string option list \<Rightarrow> date_column" where
  "parse_dates p col =
     (if col \<noteq> [] \<and> list_all (cell_parses p) col then DatetimeCol (map (stamp_of p) col)
      else ObjectCol col)"

text \<open>\<^verbatim>\<open>Series.str.strip()\<close>: only a column of strings has the \<^verbatim>\<open>.str\<close>
  accessor; a missing cell stays missing.\<close>

definition str_strip :: "date_column \<Rightarrow> error + string option list" where
  "str_strip col =
     (case col of
        DatetimeCol ts \<Rightarrow> Inl AttributeError
      | ObjectCol ss \<Rightarrow> Inr (map (map_option py_strip) ss))"

text \<open>\<^verbatim>\<open>astype("datetime64")\<close> on a column of strings: one unparsable cell raises.\<close>

definition astype_datetime64 ::
  "(string \<Rightarrow> parsed) \<Rightarrow> string option list \<Rightarrow> error + int option list" where
  "astype_datetime64 p ss =
     (if list_all (cell_parses p) ss then Inr (map (stamp_of p) ss) else Inl ValueError)"

text \<open>
  A column with rows that type inference reads as numbers (every present cell is a
  number, or no cell is present) is not a column of strings: \<^verbatim>\<open>.str.len()\<close>
  raises on it.
\<close>

definition cell_is_number :: "(string \<Rightarrow> bool) \<Rightarrow> string option \<Rightarrow> bool" where
  "cell_is_number n c = (case c of None \<Rightarrow> True | Some s \<Rightarrow> n s)"

definition numeric_column :: "(string \<Rightarrow> bool) \<Rightarrow> string option list \<Rightarrow> bool" where
  "numeric_column n col = (col \<noteq> [] \<and> list_all (cell_is_number n) col)"

definition str_len :: "(string \<Rightarrow> bool) \<Rightarrow> string option list \<Rightarrow> string option list
    \<Rightarrow> error + nat option list" where
  "str_len n read_col col =
     (if numeric_column n read_col then Inl AttributeError
      else Inr (map (map_option length) col))"

text \<open>\<^verbatim>\<open>astype("float32")\<close> on a column of strings.\<close>

definition float_cell :: "(string \<Rightarrow> 'f float_cast) \<Rightarrow> string option \<Rightarrow> 'f option" where
  "float_cell f c =
     (case c of
        None \<Rightarrow> None
      | Some s \<Rightarrow> (case f s of CastNum v \<Rightarrow> Some v | CastNaN \<Rightarrow> None | CastFails \<Rightarrow> None))"

definition cell_casts :: "(string \<Rightarrow> 'f float_cast) \<Rightarrow> string option \<Rightarrow> bool" where
  "cell_casts f c = (case c of None \<Rightarrow> True | Some s \<Rightarrow> f s \<noteq> CastFails)"

definition astype_float ::
  "(string \<Rightarrow> 'f float_cast) \<Rightarrow> string option list \<Rightarrow> error + 'f option list" where
  "astype_float f col =
     (if list_all (cell_casts f) col then Inr (map (float_cell f) col) else Inl ValueError)"

text \<open>
  \<^verbatim>\<open>astype(str)\<close> of an identifier column. A cell of a column of strings keeps its
  text, a missing cell becomes the text \<open>nan\<close>. A cell of a column read as numbers
  becomes the text the library prints for the number it read there (an integer, or a
  float when the column holds a float or a missing cell); \<open>Printed s\<close> stands for
  that text, for a cell that reads \<open>s\<close> in the file.
\<close>

datatype printed = Text string | Printed string

definition astype_str :: "(string \<Rightarrow> bool) \<Rightarrow> string option list \<Rightarrow> printed list" where
  "astype_str n col =
     (if numeric_column n col
      then map (\<lambda>c. case c of None \<Rightarrow> Text ''nan'' | Some s \<Rightarrow> Printed s) col
      else map (\<lambda>c. case c of None \<Rightarrow> Text ''nan'' | Some s \<Rightarrow> Text s) col)"

section \<open>The patient loader\<close>

text \<open>
  One row of the patient file as \<^verbatim>\<open>read_csv\<close> splits it. The columns the loader
  never touches (country, province, city, infection_case, infected_by) travel in
  \<open>csv_untouched\<close>.
\<close>

record csv_patient =
  csv_patient_id :: "string option"
  csv_sex :: "string option"
  csv_age :: "string option"
  csv_contact_number :: "string option"
  csv_symptom_onset_date :: "string option"
  csv_confirmed_date :: "string option"
  csv_released_date :: "string option"
  csv_deceased_date :: "string option"
  csv_state :: "string option"
  csv_untouched :: "string option list"

text \<open>One row of the table the loader returns; \<open>patient_id\<close> is its index.\<close>

record 'f patient =
  patient_id :: printed
  sex :: "string option"
  age :: "string option"
  contact_number :: "'f option"
  symptom_onset_date :: "int option"
  confirmed_date :: "int option"
  released_date :: "int option"
  deceased_date :: "int option"
  state :: "string option"
  untouched :: "string option list"
  age_category :: "string option"
  symptom_to_confirmed :: "int option"
  confirmed_to_released :: "int option"
  confirmed_to_deceased :: "int option"

text \<open>Lines 85 and 86: the two assignments that null a contact number.\<close>

definition null_sentinel :: "string option \<Rightarrow> string option" where
  "null_sentinel c = (if c = Some ''-'' then None else c)"

definition null_where_len_10 :: "nat option \<Rightarrow> string option \<Rightarrow> string option" where
  "null_where_len_10 n c = (if n = Some 10 then None else c)"

text \<open>Lines 119 to 121: the category of one age cell.\<close>

definition age_category_of :: "string option \<Rightarrow> string option" where
  "age_category_of a =
     astype_category [''young'', ''middle'', ''old''] (assign_age_category a)"

text \<open>
  Lines 127 to 141: \<^verbatim>\<open>(x.dst - x.src).days\<close> for one row. A missing endpoint makes
  the difference \<^verbatim>\<open>NaT\<close>, whose \<^verbatim>\<open>days\<close> is NaN. The cast to \<^verbatim>\<open>float32\<close>
  that follows is exact on every day count two timestamps can be apart, so the interval
  stays an integer here.
\<close>

definition days_between :: "int option \<Rightarrow> int option \<Rightarrow> int option" where
  "days_between dst src =
     (case (dst, src) of
        (Some d, Some s) \<Rightarrow> Some (timedelta_days (d - s))
      | _ \<Rightarrow> None)"

text \<open>
  A date column the reader left as strings holds a string that is no date; subtracting
  a timestamp from it raises.
\<close>

definition date_interval :: "date_column \<Rightarrow> date_column \<Rightarrow> error + int option list" where
  "date_interval dst src =
     (case (dst, src) of
        (DatetimeCol ds, DatetimeCol ss) \<Rightarrow> Inr (map2 days_between ds ss)
      | _ \<Rightarrow> Inl TypeError)"

text \<open>
  \<^verbatim>\<open>load_patient_info\<close>, in the order of the source: the four date columns are parsed
  on reading (lines 70 to 78), the symptom onset column is trimmed and parsed again (79
  to 81), the contact numbers are cleaned (85, 86), the columns are cast (105 to 113),
  the age category and the three intervals are derived (119 to 141).
\<close>

definition load_patient_info :: "'f pandas \<Rightarrow> csv_patient list \<Rightarrow> error + 'f patient list" where
  "load_patient_info env rows =
     (let onset_read = parse_dates (read_date env) (map csv_symptom_onset_date rows);
          confirmed = parse_dates (read_date env) (map csv_confirmed_date rows);
          released = parse_dates (read_date env) (map csv_released_date rows);
          deceased = parse_dates (read_date env) (map csv_deceased_date rows)
      in case str_strip onset_read of
           Inl e \<Rightarrow> Inl e
         | Inr stripped \<Rightarrow>
       (case astype_datetime64 (cast_date env) stripped of
           Inl e \<Rightarrow> Inl e
         | Inr onset \<Rightarrow>
       (let contact_read = map csv_contact_number rows;
            contact1 = map null_sentinel contact_read
        in case str_len (read_number env) contact_read contact1 of
             Inl e \<Rightarrow> Inl e
           | Inr lens \<Rightarrow>
       (let contact2 = map2 null_where_len_10 lens contact1;
            ages = map (astype_category age_categories \<circ> csv_age) rows
        in case astype_float (cast_float env) contact2 of
             Inl e \<Rightarrow> Inl e
           | Inr contact \<Rightarrow>
       (case date_interval confirmed (DatetimeCol onset) of
             Inl e \<Rightarrow> Inl e
           | Inr s2c \<Rightarrow>
       (case date_interval released confirmed of
             Inl e \<Rightarrow> Inl e
           | Inr c2r \<Rightarrow>
       (case date_interval deceased confirmed of
             Inl e \<Rightarrow> Inl e
           | Inr c2d \<Rightarrow>
          Inr (map (\<lambda>i.
            \<lparr> patient_id = astype_str (read_number env) (map csv_patient_id rows) ! i,
              sex = csv_sex (rows ! i),
              age = ages ! i,
              contact_number = contact ! i,
              symptom_onset_date = onset ! i,
              confirmed_date = (case confirmed of DatetimeCol ds \<Rightarrow> ds ! i | ObjectCol ss \<Rightarrow> None),
              released_date = (case released of DatetimeCol ds \<Rightarrow> ds ! i | ObjectCol ss \<Rightarrow> None),
              deceased_date = (case deceased of DatetimeCol ds \<Rightarrow> ds ! i | ObjectCol ss \<Rightarrow> None),
              state = csv_state (rows ! i),
              untouched = csv_untouched (rows ! i),
              age_category = age_category_of (ages ! i),
              symptom_to_confirmed = s2c ! i,
              confirmed_to_released = c2r ! i,
              confirmed_to_deceased = c2d ! i \<rparr>) [0..<length rows]))))))))"

section \<open>The cases loader\<close>

text \<open>
  One row of the cases file as \<^verbatim>\<open>read_csv\<close> splits it; line 27 strips the blanks
  around the header names, which is what binds the cells to these fields.
\<close>

record csv_case =
  csv_case_id :: "string option"
  csv_province :: "string option"
  csv_city :: "string option"
  csv_group :: "string option"
  csv_infection_case :: "string option"
  csv_confirmed :: "string option"
  csv_latitude :: "string option"
  csv_longitude :: "string option"

text \<open>One row of the table the loader returns.\<close>

record 'f infection_case =
  case_id :: printed
  province :: "string option"
  city :: "string option"
  group :: "string option"
  infection_case :: "string option"
  confirmed :: "string option"
  latitude :: "'f option"
  longitude :: "'f option"
  sub_city :: "string option"

text \<open>\<^verbatim>\<open>df.loc[mask, column] = values\<close>: the rows of the mask take the new value.\<close>

definition assign_where :: "bool list \<Rightarrow> 'a list \<Rightarrow> 'a list \<Rightarrow> 'a list" where
  "assign_where rows_mask new old =
     map (\<lambda>(m, n, c). if m then n else c) (zip rows_mask (zip new old))"

text \<open>
  \<^verbatim>\<open>astype(float)\<close> on a column of the file: a column the reader took for numbers
  already holds the floats it read; a column of strings is cast cell by cell.
\<close>

definition read_cell :: "(string \<Rightarrow> 'f option) \<Rightarrow> string option \<Rightarrow> 'f option" where
  "read_cell r c = (case c of None \<Rightarrow> None | Some s \<Rightarrow> r s)"

definition astype_float_column ::
  "'f pandas \<Rightarrow> string option list \<Rightarrow> string option list \<Rightarrow> error + 'f option list" where
  "astype_float_column env read_col col =
     (if numeric_column (read_number env) read_col
      then Inr (map (read_cell (read_float env)) col)
      else astype_float (cast_float64 env) col)"

text \<open>
  \<^verbatim>\<open>load_cases_data\<close>: the coordinates of a row without latitude are nulled (line
  31), a missing city takes the province (32, 33), \<open>sub_city\<close> is the city, or the
  province for an infection from another city (34 to 36), and the columns are cast (40).
\<close>

definition load_cases_data :: "'f pandas \<Rightarrow> csv_case list \<Rightarrow> error + 'f infection_case list" where
  "load_cases_data env rows =
     (let nothing = map (\<lambda>r. None) rows;
          no_latitude = map (\<lambda>r. csv_latitude r = Some ''-'') rows;
          latitude1 = assign_where no_latitude nothing (map csv_latitude rows);
          longitude1 = assign_where no_latitude nothing (map csv_longitude rows);
          without_city = map (\<lambda>r. csv_city r = Some ''-'') rows;
          city1 = assign_where without_city (map csv_province rows) (map csv_city rows);
          other_city = map (\<lambda>c. c = Some ''from other city'') city1;
          sub_city1 = assign_where other_city (map csv_province rows) city1
      in case astype_float_column env (map csv_latitude rows) latitude1 of
           Inl e \<Rightarrow> Inl e
         | Inr lat \<Rightarrow>
       (case astype_float_column env (map csv_longitude rows) longitude1 of
           Inl e \<Rightarrow> Inl e
         | Inr lon \<Rightarrow>
          Inr (map (\<lambda>i.
            \<lparr> case_id = astype_str (read_number env) (map csv_case_id rows) ! i,
              province = csv_province (rows ! i),
              city = city1 ! i,
              group = csv_group (rows ! i),
              infection_case = csv_infection_case (rows ! i),
              confirmed = csv_confirmed (rows ! i),
              latitude = lat ! i,
              longitude = lon ! i,
              sub_city = sub_city1 ! i \<rparr>) [0..<length rows])))"

section \<open>The time series expander\<close>

text \<open>
  A table of accumulated counts: an index of row labels (dates) and named columns. A
  count column holds integers, a cell of it may be missing; a label column holds strings
  that are no numerals (a province, an age group) and serves for grouping. The table the
  expander builds has ratio columns as well: a ratio cell \<open>(n, d)\<close> stands for the
  float quotient of the two cells.
\<close>

datatype column = Counts "int option list" | Labels "string option list"

record table =
  index :: "string list"
  columns :: "(string \<times> column) list"

datatype out_column = Column column | Ratio "(int option \<times> int option) list"

record out_table =
  out_index :: "string list"
  out_columns :: "(string \<times> out_column) list"

definition ratio_column_name :: "string \<times> string \<Rightarrow> string" where
  "ratio_column_name ratio = fst ratio @ ''_to_'' @ snd ratio @ ''_ratio''"

text \<open>A difference of two cells is missing when either cell is.\<close>

definition sub_cell :: "int option \<Rightarrow> int option \<Rightarrow> int option" where
  "sub_cell x p = (case (x, p) of (Some a, Some b) \<Rightarrow> Some (a - b) | _ \<Rightarrow> None)"

text \<open>\<^verbatim>\<open>Series.diff()\<close>: each row minus the row before it; the first row is missing.\<close>

fun diff_from :: "int option \<Rightarrow> int option list \<Rightarrow> int option list" where
  "diff_from p [] = []"
| "diff_from p (x # xs) = sub_cell x p # diff_from x xs"

definition diff :: "int option list \<Rightarrow> int option list" where
  "diff xs = (case xs of [] \<Rightarrow> [] | x # ys \<Rightarrow> None # diff_from x ys)"

text \<open>
  \<^verbatim>\<open>groupby(grouping)[...].diff()\<close>: each row minus the row before it in its own
  group, in the row order of the table. One pass that remembers the last cell seen
  of every group; a row whose key is missing belongs to no group and gets a missing
  difference.
\<close>

datatype key = IntKey int | StrKey string

fun keys_of :: "column \<Rightarrow> key option list" where
  "keys_of (Counts xs) = map (map_option IntKey) xs"
| "keys_of (Labels ss) = map (map_option StrKey) ss"

fun group_diff ::
  "(key \<Rightarrow> int option option) \<Rightarrow> key option list \<Rightarrow> int option list \<Rightarrow> int option list" where
  "group_diff seen (k # ks) (x # xs) =
     (case k of
        None \<Rightarrow> None # group_diff seen ks xs
      | Some g \<Rightarrow>
          (case seen g of None \<Rightarrow> None | Some p \<Rightarrow> sub_cell x p)
            # group_diff (seen(g \<mapsto> x)) ks xs)"
| "group_diff seen ks xs = []"

text \<open>\<^verbatim>\<open>df[expand]\<close>: a name that is no column raises \<^verbatim>\<open>KeyError\<close>.\<close>

fun select_columns :: "(string \<times> column) list \<Rightarrow> string list \<Rightarrow> error + (string \<times> column) list" where
  "select_columns cols [] = Inr []"
| "select_columns cols (c # cs) =
     (case map_of cols c of
        None \<Rightarrow> Inl KeyError
      | Some col \<Rightarrow>
          (case select_columns cols cs of
             Inl e \<Rightarrow> Inl e
           | Inr sel \<Rightarrow> Inr ((c, col) # sel)))"

text \<open>
  The difference of every selected column. In a label column a subtraction that meets a
  string raises, which takes two rows and a string among the cells; on a shorter column
  no subtraction takes place and every difference is missing.
\<close>

definition subtracts_strings :: "string option list \<Rightarrow> bool" where
  "subtracts_strings ss = (2 \<le> length ss \<and> list_ex (\<lambda>c. c \<noteq> None) ss)"

fun diff_columns ::
  "key option list option \<Rightarrow> (string \<times> column) list \<Rightarrow> error + (string \<times> int option list) list" where
  "diff_columns ks [] = Inr []"
| "diff_columns ks ((c, Labels ss) # sel) =
     (if subtracts_strings ss then Inl TypeError
      else (case diff_columns ks sel of
              Inl e \<Rightarrow> Inl e
            | Inr ds \<Rightarrow> Inr ((c, map (\<lambda>s. None) ss) # ds)))"
| "diff_columns ks ((c, Counts xs) # sel) =
     (case diff_columns ks sel of
        Inl e \<Rightarrow> Inl e
      | Inr ds \<Rightarrow>
          Inr ((c, (case ks of None \<Rightarrow> diff xs | Some keys \<Rightarrow> group_diff Map.empty keys xs)) # ds))"

text \<open>Lines 167 to 170.\<close>

definition diff_table ::
  "table \<Rightarrow> string list \<Rightarrow> string option \<Rightarrow> error + (string \<times> int option list) list" where
  "diff_table df expand grouping =
     (case grouping of
        None \<Rightarrow>
          (case select_columns (columns df) expand of
             Inl e \<Rightarrow> Inl e
           | Inr sel \<Rightarrow> diff_columns None sel)
      | Some g \<Rightarrow>
          (case map_of (columns df) g of
             None \<Rightarrow> Inl KeyError
           | Some gc \<Rightarrow>
               (case select_columns (columns df) expand of
                  Inl e \<Rightarrow> Inl e
                | Inr sel \<Rightarrow> diff_columns (Some (keys_of gc)) sel)))"

text \<open>
  Line 172, \<^verbatim>\<open>fillna(value=df)\<close>: a missing difference takes the cell of the
  input table at the same row and column. The call aligns the two tables by column
  name and raises when a name is repeated in the table of differences, that is, in
  \<open>expand\<close> (see \<open>update_time_df\<close>). In a label column the cell taken is a
  label or missing, neither of which the cast of line 173 can read; the column is left
  with its missing differences.
\<close>

definition fill_cell :: "int option \<Rightarrow> int option \<Rightarrow> int option" where
  "fill_cell d orig = (case d of None \<Rightarrow> orig | Some v \<Rightarrow> Some v)"

definition fillna :: "(string \<times> column) list \<Rightarrow> string \<times> int option list \<Rightarrow> string \<times> int option list" where
  "fillna cols = (\<lambda>(c, ds).
     (c, case map_of cols c of Some (Counts orig) \<Rightarrow> map2 fill_cell ds orig | _ \<Rightarrow> ds))"

text \<open>Line 173, \<^verbatim>\<open>astype(int)\<close>: a missing cell cannot be cast and raises.\<close>

fun astype_int :: "int option list \<Rightarrow> error + int list" where
  "astype_int [] = Inr []"
| "astype_int (None # xs) = Inl ValueError"
| "astype_int (Some v # xs) =
     (case astype_int xs of Inl e \<Rightarrow> Inl e | Inr vs \<Rightarrow> Inr (v # vs))"

fun astype_int_columns :: "(string \<times> int option list) list \<Rightarrow> error + (string \<times> int list) list" where
  "astype_int_columns [] = Inr []"
| "astype_int_columns ((c, xs) # rest) =
     (case astype_int xs of
        Inl e \<Rightarrow> Inl e
      | Inr vs \<Rightarrow>
          (case astype_int_columns rest of
             Inl e \<Rightarrow> Inl e
           | Inr cast_rest \<Rightarrow> Inr ((c, vs) # cast_rest)))"

text \<open>\<^verbatim>\<open>df[name] = col\<close>: replaces the column of that name, or appends a new one.\<close>

definition set_column :: "string \<Rightarrow> 'c \<Rightarrow> (string \<times> 'c) list \<Rightarrow> (string \<times> 'c) list" where
  "set_column name col cols =
     (if name \<in> fst ` set cols then map (\<lambda>(n, c). if n = name then (n, col) else (n, c)) cols
      else cols @ [(name, col)])"

definition add_prefix :: "string \<Rightarrow> (string \<times> 'c) list \<Rightarrow> (string \<times> 'c) list" where
  "add_prefix pre cols = map (\<lambda>(n, c). (pre @ n, c)) cols"

text \<open>Line 181, for one name of the list.\<close>

definition rename_column :: "string \<Rightarrow> (string \<times> 'c) list \<Rightarrow> (string \<times> 'c) list" where
  "rename_column column cols =
     map (\<lambda>(n, c). if n = column then (''accumulated_'' @ column, c) else (n, c)) cols"

text \<open>Line 178: the quotient of two columns of the input table.\<close>

definition divide_columns ::
  "(string \<times> column) list \<Rightarrow> string \<times> string \<Rightarrow> error + (int option \<times> int option) list" where
  "divide_columns cols ratio =
     (case (map_of cols (fst ratio), map_of cols (snd ratio)) of
        (Some (Counts n), Some (Counts d)) \<Rightarrow> Inr (zip n d)
      | (Some a, Some b) \<Rightarrow> Inl TypeError
      | _ \<Rightarrow> Inl KeyError)"

text \<open>
  \<^verbatim>\<open>update_time_df\<close>. The function changes both the table and the list it is given, so
  the embedding returns three results: the table \<open>df\<close> as the call leaves it, the list
  \<open>expand\<close> as the call leaves it, and the table the call returns. Every raise comes
  before the first of the changes (line 178), so a call that raises leaves both as they
  were.
\<close>

definition update_time_df ::
  "table \<Rightarrow> string list \<Rightarrow> string \<times> string \<Rightarrow> string option
    \<Rightarrow> error + (out_table \<times> string list \<times> out_table)" where
  "update_time_df df expand ratio grouping =
     (let ratio_name = ratio_column_name ratio
      in case diff_table df expand grouping of
           Inl e \<Rightarrow> Inl e
         | Inr diffs \<Rightarrow>
       if \<not> distinct expand then Inl InvalidIndexError
       else
       (case astype_int_columns (map (fillna (columns df)) diffs) of
           Inl e \<Rightarrow> Inl e
         | Inr ints \<Rightarrow>
       (case (map_of ints (fst ratio), map_of ints (snd ratio)) of
           (Some n, Some d) \<Rightarrow>
             (let df_new =
                    add_prefix ''new_''
                      (set_column ratio_name (Ratio (zip (map Some n) (map Some d)))
                         (map (\<lambda>(c, vs). (c, Column (Counts (map Some vs)))) ints))
              in case divide_columns (columns df) ratio of
                   Inl e \<Rightarrow> Inl e
                 | Inr quotients \<Rightarrow>
                     (let df1 = set_column ratio_name (Ratio quotients)
                                  (map (\<lambda>(c, col). (c, Column col)) (columns df));
                          expand1 = expand @ [ratio_name];
                          df2 = fold rename_column expand1 df1
                      in Inr (\<lparr> out_index = index df, out_columns = df2 \<rparr>,
                              expand1,
                              \<lparr> out_index = index df, out_columns = df2 @ df_new \<rparr>)))
         | _ \<Rightarrow> Inl KeyError)))"

section \<open>The time series expander: the properties in view\<close>

text \<open>
  The tables the theorems speak about: column names are not repeated, every column is
  as long as the index, a label column holds at least one label (the library takes a
  column without any string for a column of numbers), and every count is below
  \<open>2 ^ 52\<close> in magnitude. The library computes the differences in 64-bit floats and
  casts them back; on counts of that size the float arithmetic is exact, and the integers
  of the embedding are the values the library holds.
\<close>

fun column_length :: "column \<Rightarrow> nat" where
  "column_length (Counts xs) = length xs"
| "column_length (Labels ss) = length ss"

definition exact_count :: "int option \<Rightarrow> bool" where
  "exact_count x = (case x of None \<Rightarrow> True | Some v \<Rightarrow> \<bar>v\<bar> < 2 ^ 52)"

fun exact_counts :: "column \<Rightarrow> bool" where
  "exact_counts (Counts xs) = list_all exact_count xs"
| "exact_counts (Labels ss) = list_ex (\<lambda>c. c \<noteq> None) ss"

definition well_formed :: "table \<Rightarrow> bool" where
  "well_formed df =
     (distinct (map fst (columns df))
      \<and> list_all (\<lambda>(n, c). column_length c = length (index df)) (columns df)
      \<and> list_all (\<lambda>(n, c). exact_counts c) (columns df))"

text \<open>
  The previous row of the same group: \<open>last_row g ks\<close> is the last position of the
  key \<open>g\<close> in \<open>ks\<close>, and \<open>prev_row ks k\<close> the last row before \<open>k\<close> with the key
  of row \<open>k\<close>. A row without a key has no previous row.
\<close>

fun last_row :: "key \<Rightarrow> key option list \<Rightarrow> nat option" where
  "last_row g [] = None"
| "last_row g (k # ks) =
     (case last_row g ks of
        Some j \<Rightarrow> Some (Suc j)
      | None \<Rightarrow> if k = Some g then Some 0 else None)"

definition prev_row :: "key option list \<Rightarrow> nat \<Rightarrow> nat option" where
  "prev_row ks k = (case ks ! k of None \<Rightarrow> None | Some g \<Rightarrow> last_row g (take k ks))"

text \<open>What the pass of \<open>group_diff\<close> remembers after a prefix of the rows.\<close>

fun seen_after ::
  "(key \<Rightarrow> int option option) \<Rightarrow> key option list \<Rightarrow> int option list \<Rightarrow> key \<Rightarrow> int option option" where
  "seen_after seen (k # ks) (x # xs) =
     seen_after (case k of None \<Rightarrow> seen | Some g \<Rightarrow> seen(g \<mapsto> x)) ks xs"
| "seen_after seen ks xs = seen"

text \<open>
  The differences \<open>diff_table\<close> takes of one count column, and the row each row is
  compared with: the row before it when no grouping is given, the previous row of its
  group otherwise.
\<close>

definition diff_in :: "table \<Rightarrow> string option \<Rightarrow> int option list \<Rightarrow> int option list" where
  "diff_in df grouping xs =
     (case grouping of
        None \<Rightarrow> diff xs
      | Some g \<Rightarrow>
          (case map_of (columns df) g of
             None \<Rightarrow> []
           | Some gc \<Rightarrow> group_diff Map.empty (keys_of gc) xs))"

definition previous_row :: "table \<Rightarrow> string option \<Rightarrow> nat \<Rightarrow> nat option" where
  "previous_row df grouping k =
     (case grouping of
        None \<Rightarrow> if k = 0 then None else Some (k - 1)
      | Some g \<Rightarrow>
          (case map_of (columns df) g of
             None \<Rightarrow> None
           | Some gc \<Rightarrow> prev_row (keys_of gc) k))"

text \<open>
  The two halves of the table \<open>update_time_df\<close> returns, as its definition builds
  them: the \<open>new_\<close> columns, and the columns of the input table after lines 178 to
  181.
\<close>

definition new_table :: "string \<times> string \<Rightarrow> (string \<times> int list) list \<Rightarrow> int list \<Rightarrow> int list
    \<Rightarrow> (string \<times> out_column) list" where
  "new_table ratio ints n d =
     add_prefix ''new_''
       (set_column (ratio_column_name ratio) (Ratio (zip (map Some n) (map Some d)))
          (map (\<lambda>(c, vs). (c, Column (Counts (map Some vs)))) ints))"

definition old_table :: "table \<Rightarrow> string list \<Rightarrow> string \<times> string \<Rightarrow> (int option \<times> int option) list
    \<Rightarrow> (string \<times> out_column) list" where
  "old_table df expand ratio q =
     fold rename_column (expand @ [ratio_column_name ratio])
       (set_column (ratio_column_name ratio) (Ratio q)
          (map (\<lambda>(c, col). (c, Column col)) (columns df)))"

text \<open>
  The name a column ends with after the loop of lines 180 and 181 has run over the list
  \<open>cs\<close>: each step renames the column if it bears the step's name.
\<close>

definition renamed :: "string list \<Rightarrow> string \<Rightarrow> string" where
  "renamed cs n = fold (\<lambda>c m. if m = c then ''accumulated_'' @ c else m) cs n"

text \<open>
  The rows of the group of row \<open>k\<close>, up to and including \<open>k\<close>; all rows up to
  \<open>k\<close> when no grouping is given. A row without a key stands alone.
\<close>

definition group_rows :: "table \<Rightarrow> string option \<Rightarrow> nat \<Rightarrow> nat list" where
  "group_rows df grouping k =
     (case grouping of
        None \<Rightarrow> [0..<Suc k]
      | Some g \<Rightarrow>
          (case map_of (columns df) g of
             None \<Rightarrow> [k]
           | Some gc \<Rightarrow>
               (case keys_of gc ! k of
                  None \<Rightarrow> [k]
                | Some key \<Rightarrow> filter (\<lambda>j. keys_of gc ! j = Some key) [0..<Suc k])))"

fun out_column_length :: "out_column \<Rightarrow> nat" where
  "out_column_length (Column col) = column_length col"
| "out_column_length (Ratio q) = length q"

section \<open>A concrete reader for the examples\<close>

text \<open>
  The closed examples below need the library's readers at a few concrete strings. The
  definitions of this section fix them on a fragment of what the library reads: ISO
  dates \<^verbatim>\<open>YYYY-MM-DD\<close>, decimal numerals with an optional sign, fraction and
  exponent, the spellings of infinity and of NaN. Other date formats and numerals
  written with underscores are outside the fragment and count as unreadable; no example
  uses one.
\<close>

definition digit_of :: "char \<Rightarrow> nat option" where
  "digit_of c =
     (let n = (of_char c :: nat) in if 48 \<le> n \<and> n \<le> 57 then Some (n - 48) else None)"

fun digits_from :: "nat \<Rightarrow> string \<Rightarrow> nat option" where
  "digits_from acc [] = Some acc"
| "digits_from acc (c # cs) =
     (case digit_of c of None \<Rightarrow> None | Some d \<Rightarrow> digits_from (10 * acc + d) cs)"

definition digits :: "string \<Rightarrow> nat option" where
  "digits s = (if s = [] then None else digits_from 0 s)"

definition is_leap :: "nat \<Rightarrow> bool" where
  "is_leap y = (y mod 4 = 0 \<and> (y mod 100 \<noteq> 0 \<or> y mod 400 = 0))"

definition days_in_month :: "nat \<Rightarrow> nat \<Rightarrow> nat" where
  "days_in_month y m =
     (if m = 2 then (if is_leap y then 29 else 28)
      else if m = 4 \<or> m = 6 \<or> m = 9 \<or> m = 11 then 30 else 31)"

text \<open>Days from 1970-01-01 to a date of the proleptic Gregorian calendar.\<close>

definition days_from_civil :: "int \<Rightarrow> int \<Rightarrow> int \<Rightarrow> int" where
  "days_from_civil y m d =
     (let y' = (if m \<le> 2 then y - 1 else y);
          era = y' div 400;
          yoe = y' - era * 400;
          doy = (153 * (if m > 2 then m - 3 else m + 9) + 2) div 5 + d - 1;
          doe = yoe * 365 + yoe div 4 - yoe div 100 + doy
      in era * 146097 + doe - 719468)"

definition iso_date :: "string \<Rightarrow> int option" where
  "iso_date s =
     (if length s = 10 \<and> s ! 4 = CHR ''-'' \<and> s ! 7 = CHR ''-'' then
        (case (digits (take 4 s), digits (take 2 (drop 5 s)), digits (drop 8 s)) of
           (Some y, Some m, Some d) \<Rightarrow>
             if 1 \<le> m \<and> m \<le> 12 \<and> 1 \<le> d \<and> d \<le> days_in_month y m
             then Some (days_from_civil (int y) (int m) (int d))
             else None
         | _ \<Rightarrow> None)
      else None)"

text \<open>
  The date parser: the empty string is \<^verbatim>\<open>NaT\<close>; an ISO date is midnight of its day,
  also with whitespace around it (the parser's tokenizer skips whitespace); a string of
  whitespace alone holds no date. A timestamp counts nanoseconds in 64 bits, so midnight
  can be stored for the days from 1677-09-22 to 2262-04-11 only (106751 days either side
  of the epoch); a date outside does not parse.
\<close>

definition to_datetime :: "string \<Rightarrow> parsed" where
  "to_datetime s =
     (if s = [] then NaT
      else (case iso_date (py_strip s) of
              Some d \<Rightarrow>
                if - 106751 \<le> d \<and> d \<le> 106751 then Stamp (d * ns_per_day) else Unparsable
            | None \<Rightarrow> Unparsable))"

text \<open>
  Numerals: an optional sign, then digits with an optional point among them and at least
  one digit, then an optional exponent; or a spelling of infinity. Case does not matter
  and whitespace around the numeral is ignored.
\<close>

definition ascii_lower :: "char \<Rightarrow> char" where
  "ascii_lower c =
     (let n = (of_char c :: nat) in if 65 \<le> n \<and> n \<le> 90 then char_of (n + 32) else c)"

definition is_digits :: "string \<Rightarrow> bool" where
  "is_digits s = list_all (\<lambda>c. digit_of c \<noteq> None) s"

definition unsigned :: "string \<Rightarrow> string" where
  "unsigned s =
     (case s of
        [] \<Rightarrow> []
      | c # cs \<Rightarrow> if c = CHR ''+'' \<or> c = CHR ''-'' then cs else s)"

definition is_mantissa :: "string \<Rightarrow> bool" where
  "is_mantissa s =
     (let whole = takeWhile (\<lambda>c. c \<noteq> CHR ''.'') s;
          rest = dropWhile (\<lambda>c. c \<noteq> CHR ''.'') s;
          fraction = (case rest of [] \<Rightarrow> [] | c # cs \<Rightarrow> cs)
      in is_digits whole \<and> is_digits fraction \<and> (whole \<noteq> [] \<or> fraction \<noteq> []))"

definition is_numeral :: "string \<Rightarrow> bool" where
  "is_numeral s =
     (let t = unsigned (map ascii_lower (py_strip s));
          mantissa = takeWhile (\<lambda>c. c \<noteq> CHR ''e'') t;
          rest = dropWhile (\<lambda>c. c \<noteq> CHR ''e'') t
      in t \<in> {''inf'', ''infinity''}
         \<or> (is_mantissa mantissa
             \<and> (case rest of
                   [] \<Rightarrow> True
                 | c # cs \<Rightarrow> unsigned cs \<noteq> [] \<and> is_digits (unsigned cs))))"

definition is_nan :: "string \<Rightarrow> bool" where
  "is_nan s = (unsigned (map ascii_lower (py_strip s)) = ''nan'')"

text \<open>
  A float: \<open>Exact n\<close> is the integer \<open>n\<close>, which the float type holds exactly;
  \<open>Nearest s\<close> is the float nearest to the number the numeral \<open>s\<close> denotes. Two
  values may stand for the same float.
\<close>

datatype float_value = Exact int | Nearest string

definition integer_of :: "string \<Rightarrow> int option" where
  "integer_of s =
     (let t = py_strip s
      in case digits (unsigned t) of
           None \<Rightarrow> None
         | Some n \<Rightarrow> Some (if take 1 t = ''-'' then - int n else int n))"

text \<open>
  The float of a numeral, for a float type whose significand has \<open>bits\<close> bits: 24 for
  \<^verbatim>\<open>float32\<close>, 53 for \<^verbatim>\<open>float64\<close>.
\<close>

definition float_of :: "nat \<Rightarrow> string \<Rightarrow> float_value" where
  "float_of bits s =
     (case integer_of s of
        Some n \<Rightarrow> if \<bar>n\<bar> \<le> 2 ^ bits then Exact n else Nearest (py_strip s)
      | None \<Rightarrow> Nearest (py_strip s))"

text \<open>Type inference reads a numeral as a number; a spelling of NaN stays a string.\<close>

definition reads_as_number :: "string \<Rightarrow> bool" where
  "reads_as_number s = is_numeral s"

text \<open>The float cast of a string, as Python's \<^verbatim>\<open>float\<close> does it.\<close>

definition py_float :: "nat \<Rightarrow> string \<Rightarrow> float_value float_cast" where
  "py_float bits s =
     (if is_nan s then CastNaN
      else if is_numeral s then CastNum (float_of bits s)
      else CastFails)"

definition pandas_iso :: "float_value pandas" where
  "pandas_iso =
     \<lparr> read_date = to_datetime, cast_date = to_datetime,
       read_number = reads_as_number, read_float = (\<lambda>s. Some (float_of 53 s)),
       cast_float = py_float 24, cast_float64 = py_float 53 \<rparr>"

section \<open>Example files\<close>

text \<open>
  A patient file of four rows. The whitespace cell of the first row keeps the symptom
  onset column a column of strings on reading, and the sentinel of the second row does
  the same for the contact numbers.
\<close>

definition example_patients :: "csv_patient list" where
  "example_patients =
     [\<lparr> csv_patient_id = Some ''1000000001'', csv_sex = Some ''male'',
        csv_age = Some ''100s'', csv_contact_number = Some ''75'',
        csv_symptom_onset_date = Some '' '', csv_confirmed_date = Some ''2020-01-10'',
        csv_released_date = Some ''2020-01-20'', csv_deceased_date = None,
        csv_state = Some ''released'', csv_untouched = [] \<rparr>,
      \<lparr> csv_patient_id = Some ''1000000002'', csv_sex = Some ''female'',
        csv_age = Some ''30s'', csv_contact_number = Some ''-'',
        csv_symptom_onset_date = Some ''2020-01-08 '', csv_confirmed_date = Some ''2020-01-10'',
        csv_released_date = None, csv_deceased_date = None,
        csv_state = Some ''isolated'', csv_untouched = [] \<rparr>,
      \<lparr> csv_patient_id = Some ''1000000003'', csv_sex = None,
        csv_age = None, csv_contact_number = Some ''1000000002'',
        csv_symptom_onset_date = None, csv_confirmed_date = Some ''2020-01-30'',
        csv_released_date = None, csv_deceased_date = Some ''2020-02-19'',
        csv_state = Some ''deceased'', csv_untouched = [] \<rparr>,
      \<lparr> csv_patient_id = Some ''1000000004'', csv_sex = None,
        csv_age = Some ''70s'', csv_contact_number = Some ''NAN'',
        csv_symptom_onset_date = None, csv_confirmed_date = None,
        csv_released_date = None, csv_deceased_date = None,
        csv_state = None, csv_untouched = [] \<rparr>]"

definition example_loaded :: "float_value patient list" where
  "example_loaded =
     [\<lparr> patient_id = Printed ''1000000001'', sex = Some ''male'', age = Some ''100s'',
        contact_number = Some (Exact 75), symptom_onset_date = None,
        confirmed_date = Some 1578614400000000000,
        released_date = Some 1579478400000000000, deceased_date = None,
        state = Some ''released'', untouched = [], age_category = Some ''young'',
        symptom_to_confirmed = None, confirmed_to_released = Some 10,
        confirmed_to_deceased = None \<rparr>,
      \<lparr> patient_id = Printed ''1000000002'', sex = Some ''female'', age = Some ''30s'',
        contact_number = None, symptom_onset_date = Some 1578441600000000000,
        confirmed_date = Some 1578614400000000000, released_date = None,
        deceased_date = None, state = Some ''isolated'', untouched = [],
        age_category = Some ''middle'', symptom_to_confirmed = Some 2,
        confirmed_to_released = None, confirmed_to_deceased = None \<rparr>,
      \<lparr> patient_id = Printed ''1000000003'', sex = None, age = None,
        contact_number = None, symptom_onset_date = None,
        confirmed_date = Some 1580342400000000000, released_date = None,
        deceased_date = Some 1582070400000000000, state = Some ''deceased'',
        untouched = [], age_category = None, symptom_to_confirmed = None,
        confirmed_to_released = None, confirmed_to_deceased = Some 20 \<rparr>,
      \<lparr> patient_id = Printed ''1000000004'', sex = None, age = Some ''70s'',
        contact_number = None, symptom_onset_date = None, confirmed_date = None,
        released_date = None, deceased_date = None, state = None, untouched = [],
        age_category = Some ''old'', symptom_to_confirmed = None,
        confirmed_to_released = None, confirmed_to_deceased = None \<rparr>]"

text \<open>
  A patient file of one row whose symptom onset date is a valid date behind a leading
  blank.
\<close>

definition padded_patients :: "csv_patient list" where
  "padded_patients =
     [\<lparr> csv_patient_id = Some ''1000000001'', csv_sex = Some ''male'',
        csv_age = Some ''50s'', csv_contact_number = Some ''-'',
        csv_symptom_onset_date = Some '' 2020-01-08'', csv_confirmed_date = Some ''2020-01-10'',
        csv_released_date = None, csv_deceased_date = None,
        csv_state = Some ''isolated'', csv_untouched = [] \<rparr>]"

text \<open>A cases file of three rows.\<close>

definition example_cases :: "csv_case list" where
  "example_cases =
     [\<lparr> csv_case_id = Some ''1000001'', csv_province = Some ''Seoul'',
        csv_city = Some ''Yongsan-gu'', csv_group = Some ''TRUE'',
        csv_infection_case = Some ''Itaewon Clubs'', csv_confirmed = Some ''139'',
        csv_latitude = Some ''37.538621'', csv_longitude = Some ''126.992652'' \<rparr>,
      \<lparr> csv_case_id = Some ''1000002'', csv_province = Some ''Seoul'',
        csv_city = Some ''-'', csv_group = Some ''FALSE'',
        csv_infection_case = Some ''overseas inflow'', csv_confirmed = Some ''298'',
        csv_latitude = Some ''-'', csv_longitude = Some ''-'' \<rparr>,
      \<lparr> csv_case_id = Some ''1100003'', csv_province = Some ''Busan'',
        csv_city = Some ''from other city'', csv_group = Some ''TRUE'',
        csv_infection_case = Some ''Itaewon Clubs'', csv_confirmed = Some ''4'',
        csv_latitude = Some ''-'', csv_longitude = Some ''-'' \<rparr>]"

definition example_cases_loaded :: "float_value infection_case list" where
  "example_cases_loaded =
     [\<lparr> case_id = Printed ''1000001'', province = Some ''Seoul'', city = Some ''Yongsan-gu'',
        group = Some ''TRUE'', infection_case = Some ''Itaewon Clubs'',
        confirmed = Some ''139'', latitude = Some (Nearest ''37.538621''), longitude = Some (Nearest ''126.992652''),
        sub_city = Some ''Yongsan-gu'' \<rparr>,
      \<lparr> case_id = Printed ''1000002'', province = Some ''Seoul'', city = Some ''Seoul'',
        group = Some ''FALSE'', infection_case = Some ''overseas inflow'',
        confirmed = Some ''298'', latitude = None, longitude = None,
        sub_city = Some ''Seoul'' \<rparr>,
      \<lparr> case_id = Printed ''1100003'', province = Some ''Busan'', city = Some ''from other city'',
        group = Some ''TRUE'', infection_case = Some ''Itaewon Clubs'',
        confirmed = Some ''4'', latitude = None, longitude = None,
        sub_city = Some ''Busan'' \<rparr>]"

text \<open>
  Tables for the expander: three days of national counts, two days of counts by province,
  and a table with a missing count in its second row.
\<close>

definition example_time :: table where
  "example_time =
     \<lparr> index = [''2020-03-01'', ''2020-03-02'', ''2020-03-03''],
       columns = [(''test'', Counts [Some 100, Some 150, Some 230]),
                  (''confirmed'', Counts [Some 10, Some 15, Some 23]),
                  (''deceased'', Counts [Some 1, Some 1, Some 2])] \<rparr>"

definition example_time_after :: out_table where
  "example_time_after =
     \<lparr> out_index = [''2020-03-01'', ''2020-03-02'', ''2020-03-03''],
       out_columns =
         [(''test'', Column (Counts [Some 100, Some 150, Some 230])),
          (''accumulated_confirmed'', Column (Counts [Some 10, Some 15, Some 23])),
          (''accumulated_deceased'', Column (Counts [Some 1, Some 1, Some 2])),
          (''accumulated_deceased_to_confirmed_ratio'',
           Ratio [(Some 1, Some 10), (Some 1, Some 15), (Some 2, Some 23)])] \<rparr>"

definition example_time_returned :: out_table where
  "example_time_returned =
     \<lparr> out_index = [''2020-03-01'', ''2020-03-02'', ''2020-03-03''],
       out_columns =
         [(''test'', Column (Counts [Some 100, Some 150, Some 230])),
          (''accumulated_confirmed'', Column (Counts [Some 10, Some 15, Some 23])),
          (''accumulated_deceased'', Column (Counts [Some 1, Some 1, Some 2])),
          (''accumulated_deceased_to_confirmed_ratio'',
           Ratio [(Some 1, Some 10), (Some 1, Some 15), (Some 2, Some 23)]),
          (''new_confirmed'', Column (Counts [Some 10, Some 5, Some 8])),
          (''new_deceased'', Column (Counts [Some 1, Some 0, Some 1])),
          (''new_deceased_to_confirmed_ratio'',
           Ratio [(Some 1, Some 10), (Some 0, Some 5), (Some 1, Some 8)])] \<rparr>"

definition example_grouped :: table where
  "example_grouped =
     \<lparr> index = [''2020-03-01'', ''2020-03-01'', ''2020-03-02'', ''2020-03-02''],
       columns =
         [(''province'', Labels [Some ''Seoul'', Some ''Busan'', Some ''Seoul'', Some ''Busan'']),
          (''confirmed'', Counts [Some 10, Some 20, Some 15, Some 22]),
          (''deceased'', Counts [Some 1, Some 0, Some 2, Some 0])] \<rparr>"

definition example_grouped_after :: out_table where
  "example_grouped_after =
     \<lparr> out_index = [''2020-03-01'', ''2020-03-01'', ''2020-03-02'', ''2020-03-02''],
       out_columns =
         [(''province'',
           Column (Labels [Some ''Seoul'', Some ''Busan'', Some ''Seoul'', Some ''Busan''])),
          (''accumulated_confirmed'', Column (Counts [Some 10, Some 20, Some 15, Some 22])),
          (''accumulated_deceased'', Column (Counts [Some 1, Some 0, Some 2, Some 0])),
          (''accumulated_deceased_to_confirmed_ratio'',
           Ratio [(Some 1, Some 10), (Some 0, Some 20), (Some 2, Some 15), (Some 0, Some 22)])] \<rparr>"

definition example_grouped_returned :: out_table where
  "example_grouped_returned =
     \<lparr> out_index = [''2020-03-01'', ''2020-03-01'', ''2020-03-02'', ''2020-03-02''],
       out_columns =
         [(''province'',
           Column (Labels [Some ''Seoul'', Some ''Busan'', Some ''Seoul'', Some ''Busan''])),
          (''accumulated_confirmed'', Column (Counts [Some 10, Some 20, Some 15, Some 22])),
          (''accumulated_deceased'', Column (Counts [Some 1, Some 0, Some 2, Some 0])),
          (''accumulated_deceased_to_confirmed_ratio'',
           Ratio [(Some 1, Some 10), (Some 0, Some 20), (Some 2, Some 15), (Some 0, Some 22)]),
          (''new_confirmed'', Column (Counts [Some 10, Some 20, Some 5, Some 2])),
          (''new_deceased'', Column (Counts [Some 1, Some 0, Some 1, Some 0])),
          (''new_deceased_to_confirmed_ratio'',
           Ratio [(Some 1, Some 10), (Some 0, Some 20), (Some 1, Some 5), (Some 0, Some 2)])] \<rparr>"

definition example_missing :: table where
  "example_missing =
     \<lparr> index = [''2020-03-01'', ''2020-03-02'', ''2020-03-03''],
       columns = [(''confirmed'', Counts [Some 10, None, Some 23]),
                  (''deceased'', Counts [Some 1, Some 1, Some 2])] \<rparr>"

text \<open>
  A table that already has a column with the name the expander gives its ratio column,
  for a call that lists that column in \<open>expand\<close>; the table as such a call leaves
  it, and the table the call returns.
\<close>

definition example_ratio :: table where
  "example_ratio =
     \<lparr> index = [''2020-03-01'', ''2020-03-02''],
       columns = [(''confirmed'', Counts [Some 10, Some 10]),
                  (''deceased'', Counts [Some 1, Some 1]),
                  (''deceased_to_confirmed_ratio'', Counts [Some 3, Some 7])] \<rparr>"

definition example_ratio_after :: out_table where
  "example_ratio_after =
     \<lparr> out_index = [''2020-03-01'', ''2020-03-02''],
       out_columns =
         [(''accumulated_confirmed'', Column (Counts [Some 10, Some 10])),
          (''accumulated_deceased'', Column (Counts [Some 1, Some 1])),
          (''accumulated_deceased_to_confirmed_ratio'',
           Ratio [(Some 1, Some 10), (Some 1, Some 10)])] \<rparr>"

definition example_ratio_returned :: out_table where
  "example_ratio_returned =
     \<lparr> out_index = [''2020-03-01'', ''2020-03-02''],
       out_columns =
         [(''accumulated_confirmed'', Column (Counts [Some 10, Some 10])),
          (''accumulated_deceased'', Column (Counts [Some 1, Some 1])),
          (''accumulated_deceased_to_confirmed_ratio'',
           Ratio [(Some 1, Some 10), (Some 1, Some 10)]),
          (''new_confirmed'', Column (Counts [Some 10, Some 0])),
          (''new_deceased'', Column (Counts [Some 1, Some 0])),
          (''new_deceased_to_confirmed_ratio'',
           Ratio [(Some 1, Some 10), (Some 0, Some 0)])] \<rparr>"

section \<open>The patient loader: what a successful load returns\<close>

lemma load_patient_info_row:
  assumes "load_patient_info env rows = Inr out" and "i < length rows"
  shows "length out = length rows"
    and "symptom_onset_date (out ! i) =
           stamp_of (cast_date env) (map_option py_strip (csv_symptom_onset_date (rows ! i)))"
    and "confirmed_date (out ! i) = stamp_of (read_date env) (csv_confirmed_date (rows ! i))"
    and "released_date (out ! i) = stamp_of (read_date env) (csv_released_date (rows ! i))"
    and "deceased_date (out ! i) = stamp_of (read_date env) (csv_deceased_date (rows ! i))"
    and "symptom_to_confirmed (out ! i) =
           days_between (confirmed_date (out ! i)) (symptom_onset_date (out ! i))"
    and "confirmed_to_released (out ! i) =
           days_between (released_date (out ! i)) (confirmed_date (out ! i))"
    and "confirmed_to_deceased (out ! i) =
           days_between (deceased_date (out ! i)) (confirmed_date (out ! i))"
    and "contact_number (out ! i) =
           float_cell (cast_float env)
             (null_where_len_10 (map_option length (null_sentinel (csv_contact_number (rows ! i))))
                (null_sentinel (csv_contact_number (rows ! i))))"
    and "cell_casts (cast_float env)
             (null_where_len_10 (map_option length (null_sentinel (csv_contact_number (rows ! i))))
                (null_sentinel (csv_contact_number (rows ! i))))"
    and "age (out ! i) = astype_category age_categories (csv_age (rows ! i))"
    and "age_category (out ! i) = age_category_of (age (out ! i))"
  using assms
  by (auto simp: load_patient_info_def Let_def parse_dates_def str_strip_def
      astype_datetime64_def str_len_def astype_float_def date_interval_def list_all_length
      split: sum.splits date_column.splits if_splits)

lemma load_patient_info_strings:
  assumes "load_patient_info env rows = Inr out"
  shows "\<not> list_all (cell_parses (read_date env)) (map csv_symptom_onset_date rows)"
    and "\<not> list_all (cell_is_number (read_number env)) (map csv_contact_number rows)"
  using assms
  by (auto simp: load_patient_info_def Let_def parse_dates_def str_strip_def
      astype_datetime64_def str_len_def numeric_column_def date_interval_def
      split: sum.splits date_column.splits if_splits)

lemma example_load: "load_patient_info pandas_iso example_patients = Inr example_loaded"
  by code_simp

lemma timedelta_days_midnight:
  "timedelta_days (e * ns_per_day - s * ns_per_day) = e - s"
proof -
  have "e * ns_per_day - s * ns_per_day = (e - s) * ns_per_day"
    by (simp add: algebra_simps)
  then show ?thesis
    by (simp add: timedelta_days_def ns_per_day_def)
qed

text \<open>
  The age category of every decade of the scale, as the loader computes it: the ranks of
  the scale decide, except at \<open>100s\<close>.
\<close>

lemma age_category_on_scale:
  assumes "s \<in> set age_categories"
  shows "age_category_of (Some s) =
           (if s = ''100s'' then Some ''young''
            else if age_rank s \<le> age_rank ''20s'' then Some ''young''
            else if age_rank s \<le> age_rank ''50s'' then Some ''middle''
            else Some ''old'')"
proof -
  from assms consider "s = ''0s''" | "s = ''10s''" | "s = ''20s''" | "s = ''30s''"
    | "s = ''40s''" | "s = ''50s''" | "s = ''60s''" | "s = ''70s''" | "s = ''80s''"
    | "s = ''90s''" | "s = ''100s''"
    unfolding age_categories_def by fastforce
  then show ?thesis
    by cases
      (simp_all add: age_categories_def age_category_of_def assign_age_category_def
        astype_category_def age_rank_def)
qed

lemma age_category_missing: "age_category_of None = None"
  by (simp add: age_category_of_def assign_age_category_def astype_category_def)

text \<open>
  Claim C1 (fails on the code at age \<open>100s\<close>). The age category is meant to follow the
  ordered decade scale, where \<open>100s\<close> lies above \<open>50s\<close> and so is old; the loader
  compares the strings, and \<open>100s\<close> sorts before \<open>20s\<close>. The first row of the example
  file has age \<open>100s\<close> and is loaded as young.
\<close>

theorem age_100s_loaded_as_young:
  "load_patient_info pandas_iso example_patients = Inr example_loaded
   \<and> csv_age (example_patients ! 0) = Some ''100s''
   \<and> age_rank ''50s'' < age_rank ''100s''
   \<and> age_category (example_loaded ! 0) = Some ''young''"
proof -
  have "age_rank ''50s'' < age_rank ''100s''"
    by (simp add: age_rank_def age_categories_def)
  moreover have "csv_age (example_patients ! 0) = Some ''100s''"
    by (simp add: example_patients_def)
  moreover have "age_category (example_loaded ! 0) = Some ''young''"
    by (simp add: example_loaded_def)
  ultimately show ?thesis
    using example_load by simp
qed

text \<open>
  Claim C7. In the table a load returns, each of the three interval columns is, row by
  row, the whole number of days from the source date to the destination date
  (\<^verbatim>\<open>(end - start).days\<close>) when both dates are present, and missing when either is
  missing.
\<close>

theorem interval_columns_are_day_differences:
  assumes "load_patient_info env rows = Inr out" and "p \<in> set out"
  shows "symptom_to_confirmed p =
           (case (confirmed_date p, symptom_onset_date p) of
              (Some e, Some s) \<Rightarrow> Some (timedelta_days (e - s)) | _ \<Rightarrow> None)
       \<and> confirmed_to_released p =
           (case (released_date p, confirmed_date p) of
              (Some e, Some s) \<Rightarrow> Some (timedelta_days (e - s)) | _ \<Rightarrow> None)
       \<and> confirmed_to_deceased p =
           (case (deceased_date p, confirmed_date p) of
              (Some e, Some s) \<Rightarrow> Some (timedelta_days (e - s)) | _ \<Rightarrow> None)"
proof -
  from assms(2) obtain i where i: "i < length out" and p: "p = out ! i"
    by (auto simp: in_set_conv_nth)
  have len: "length out = length rows"
    using assms(1) by (auto simp: load_patient_info_def Let_def split: sum.splits)
  with i have "i < length rows" by simp
  from load_patient_info_row(6-8) [OF assms(1) this] show ?thesis
    unfolding p days_between_def by simp
qed

text \<open>
  The claim's example: confirmed on 2020-01-10 and released on 2020-01-20 gives
  \<open>confirmed_to_released = 10\<close>; the symptom onset of that row is missing, and so is
  \<open>symptom_to_confirmed\<close>.
\<close>

theorem interval_columns_witness:
  "load_patient_info pandas_iso example_patients = Inr example_loaded
   \<and> example_loaded ! 0 \<in> set example_loaded
   \<and> csv_confirmed_date (example_patients ! 0) = Some ''2020-01-10''
   \<and> csv_released_date (example_patients ! 0) = Some ''2020-01-20''
   \<and> confirmed_date (example_loaded ! 0) = Some (18271 * ns_per_day)
   \<and> released_date (example_loaded ! 0) = Some (18281 * ns_per_day)
   \<and> symptom_onset_date (example_loaded ! 0) = None
   \<and> confirmed_to_released (example_loaded ! 0) = Some 10
   \<and> symptom_to_confirmed (example_loaded ! 0) = None"
proof -
  have m: "example_loaded ! 0 \<in> set example_loaded"
    by (simp add: example_loaded_def)
  have d: "confirmed_date (example_loaded ! 0) = Some (18271 * ns_per_day)"
    "released_date (example_loaded ! 0) = Some (18281 * ns_per_day)"
    "symptom_onset_date (example_loaded ! 0) = None"
    by (simp_all add: example_loaded_def ns_per_day_def)
  have r: "csv_confirmed_date (example_patients ! 0) = Some ''2020-01-10''"
    "csv_released_date (example_patients ! 0) = Some ''2020-01-20''"
    by (simp_all add: example_patients_def)
  have "18281 * ns_per_day - 18271 * ns_per_day = 10 * ns_per_day"
    by simp
  then have "timedelta_days (18281 * ns_per_day - 18271 * ns_per_day) = 10"
    by (simp add: timedelta_days_def ns_per_day_def)
  with interval_columns_are_day_differences [OF example_load m] d
  have "confirmed_to_released (example_loaded ! 0) = Some 10"
    and "symptom_to_confirmed (example_loaded ! 0) = None"
    by simp_all
  with example_load m d r show ?thesis
    by simp
qed

text \<open>
  Claim C8 (as stated, fails on the code). The contact number a load returns is missing
  for more inputs than the three the claim lists: a string that the float cast reads as
  NaN comes out missing as well. The fourth row of the example file holds \<open>NAN\<close>,
  which is neither missing on reading, nor the sentinel, nor ten characters long.
\<close>

theorem contact_nan_counterexample:
  "load_patient_info pandas_iso example_patients = Inr example_loaded
   \<and> csv_contact_number (example_patients ! 3) = Some ''NAN''
   \<and> \<not> (contact_number (example_loaded ! 3) = None \<longleftrightarrow>
          (csv_contact_number (example_patients ! 3) = None
           \<or> csv_contact_number (example_patients ! 3) = Some ''-''
           \<or> map_option length (csv_contact_number (example_patients ! 3)) = Some 10))"
proof -
  have "csv_contact_number (example_patients ! 3) = Some ''NAN''"
    by (simp add: example_patients_def)
  moreover have "contact_number (example_loaded ! 3) = None"
    by (simp add: example_loaded_def)
  ultimately show ?thesis
    using example_load by simp
qed

text \<open>
  Claim C8, amended. In the table a load returns, the contact number of a row is missing
  exactly when the input cell was missing, was the sentinel \<open>-\<close>, was a string of
  length 10, or was a string the float cast reads as NaN; every other input cell is the
  float the cast reads from it (and the cast of such a cell has not failed).
\<close>

theorem contact_number_cleaned:
  assumes "load_patient_info env rows = Inr out" and "i < length rows"
  shows "(contact_number (out ! i) = None \<longleftrightarrow>
            (csv_contact_number (rows ! i) = None
             \<or> csv_contact_number (rows ! i) = Some ''-''
             \<or> (\<exists>s. csv_contact_number (rows ! i) = Some s
                    \<and> (length s = 10 \<or> cast_float env s = CastNaN))))
       \<and> (\<forall>s v. csv_contact_number (rows ! i) = Some s \<and> s \<noteq> ''-'' \<and> length s \<noteq> 10
                \<and> cast_float env s = CastNum v
              \<longrightarrow> contact_number (out ! i) = Some v)
       \<and> (\<forall>s. csv_contact_number (rows ! i) = Some s \<and> s \<noteq> ''-'' \<and> length s \<noteq> 10
              \<longrightarrow> cast_float env s \<noteq> CastFails)"
  using load_patient_info_row(9,10) [OF assms]
  by (cases "csv_contact_number (rows ! i)")
     (auto simp: float_cell_def cell_casts_def null_where_len_10_def null_sentinel_def
       split: float_cast.splits if_splits)

theorem contact_number_witness:
  "load_patient_info pandas_iso example_patients = Inr example_loaded
   \<and> (0::nat) < length example_patients
   \<and> csv_contact_number (example_patients ! 0) = Some ''75''
   \<and> cast_float pandas_iso ''75'' = CastNum (Exact 75)
   \<and> contact_number (example_loaded ! 0) = Some (Exact 75)"
proof -
  have l: "(0::nat) < length example_patients"
    by (simp add: example_patients_def)
  have c: "csv_contact_number (example_patients ! 0) = Some ''75''"
    by (simp add: example_patients_def)
  have f: "cast_float pandas_iso ''75'' = CastNum (Exact 75)"
    by code_simp
  from contact_number_cleaned [OF example_load l] c f
  have "contact_number (example_loaded ! 0) = Some (Exact 75)"
    by simp
  with example_load l c f show ?thesis
    by simp
qed

text \<open>
  The symptom onset column. The loader trims and parses the column again only through the
  \<^verbatim>\<open>.str\<close> accessor, which a column has only while it holds strings: a load that
  returns has found a cell the reader could not parse, and its dates are the trimmed
  strings parsed anew. When the reader parses every cell, the accessor raises.
\<close>

lemma onset_trimmed_and_parsed:
  assumes "load_patient_info env rows = Inr out" and "i < length rows"
  shows "symptom_onset_date (out ! i) =
           stamp_of (cast_date env) (map_option py_strip (csv_symptom_onset_date (rows ! i)))"
    and "\<not> list_all (cell_parses (read_date env)) (map csv_symptom_onset_date rows)"
  using load_patient_info_row(2) [OF assms] load_patient_info_strings(1) [OF assms(1)]
  by simp_all

lemma onset_parsed_on_reading_raises:
  assumes "rows \<noteq> []"
    and "list_all (cell_parses (read_date env)) (map csv_symptom_onset_date rows)"
  shows "load_patient_info env rows = Inl AttributeError"
  using assms
  by (simp add: load_patient_info_def Let_def parse_dates_def str_strip_def)

lemma empty_file_raises: "load_patient_info env [] = Inl TypeError"
  by (simp add: load_patient_info_def Let_def parse_dates_def str_strip_def
      astype_datetime64_def str_len_def numeric_column_def astype_float_def
      date_interval_def)

text \<open>
  Claim C9 (fails on the code). A file whose only symptom onset date is a valid date
  behind a leading blank: the reader's parser skips the blank, the column is read as
  dates, and the load raises \<^verbatim>\<open>AttributeError\<close> at \<^verbatim>\<open>.str.strip()\<close> where the
  claim promises the date parsed from the trimmed string.
\<close>

theorem padded_onset_date_raises:
  "csv_symptom_onset_date (padded_patients ! 0) = Some '' 2020-01-08''
   \<and> py_strip '' 2020-01-08'' = ''2020-01-08''
   \<and> to_datetime ''2020-01-08'' = Stamp (18269 * ns_per_day)
   \<and> load_patient_info pandas_iso padded_patients = Inl AttributeError"
proof -
  have "csv_symptom_onset_date (padded_patients ! 0) = Some '' 2020-01-08''"
    by (simp add: padded_patients_def)
  moreover have "py_strip '' 2020-01-08'' = ''2020-01-08''"
    by code_simp
  moreover have "to_datetime ''2020-01-08'' = Stamp (18269 * ns_per_day)"
    by code_simp
  moreover have "load_patient_info pandas_iso padded_patients = Inl AttributeError"
    by code_simp
  ultimately show ?thesis
    by simp
qed

section \<open>The cases loader: what a successful load returns\<close>

lemma nth_assign_where:
  "i < length ms \<Longrightarrow> length new = length ms \<Longrightarrow> length old = length ms \<Longrightarrow>
   assign_where ms new old ! i = (if ms ! i then new ! i else old ! i)"
  by (simp add: assign_where_def)

lemma length_assign_where:
  "length new = length ms \<Longrightarrow> length old = length ms \<Longrightarrow>
   length (assign_where ms new old) = length ms"
  by (simp add: assign_where_def)

lemma astype_float_column_None:
  assumes "astype_float_column env rd col = Inr out" and "i < length col" and "col ! i = None"
  shows "out ! i = None"
  using assms
  by (auto simp: astype_float_column_def astype_float_def read_cell_def float_cell_def
      split: if_splits)

lemma load_cases_data_row:
  assumes "load_cases_data env rows = Inr out" and "i < length rows"
  shows "length out = length rows"
    and "province (out ! i) = csv_province (rows ! i)"
    and "city (out ! i) =
           (if csv_city (rows ! i) = Some ''-'' then csv_province (rows ! i)
            else csv_city (rows ! i))"
    and "sub_city (out ! i) =
           (if city (out ! i) = Some ''from other city'' then csv_province (rows ! i)
            else city (out ! i))"
    and "csv_latitude (rows ! i) = Some ''-'' \<Longrightarrow> latitude (out ! i) = None"
    and "csv_latitude (rows ! i) = Some ''-'' \<Longrightarrow> longitude (out ! i) = None"
  using assms
  by (auto simp: load_cases_data_def Let_def nth_assign_where length_assign_where
      astype_float_column_None split: sum.splits)

lemma example_cases_load:
  "load_cases_data pandas_iso example_cases = Inr example_cases_loaded"
  by code_simp

text \<open>
  Claim C5. In the table a load returns, every row whose latitude cell was the sentinel
  \<open>-\<close> has both latitude and longitude missing.
\<close>

theorem sentinel_latitude_nulls_coordinates:
  assumes "load_cases_data env rows = Inr out" and "i < length rows"
    and "csv_latitude (rows ! i) = Some ''-''"
  shows "latitude (out ! i) = None \<and> longitude (out ! i) = None"
  using load_cases_data_row(5,6) [OF assms] by simp

theorem sentinel_latitude_witness:
  "load_cases_data pandas_iso example_cases = Inr example_cases_loaded
   \<and> (1::nat) < length example_cases
   \<and> csv_latitude (example_cases ! 1) = Some ''-''
   \<and> latitude (example_cases_loaded ! 1) = None
   \<and> longitude (example_cases_loaded ! 1) = None"
proof -
  have l: "(1::nat) < length example_cases"
    by (simp add: example_cases_def)
  have c: "csv_latitude (example_cases ! 1) = Some ''-''"
    by (simp add: example_cases_def)
  from sentinel_latitude_nulls_coordinates [OF example_cases_load l c]
    example_cases_load l c
  show ?thesis
    by simp
qed

text \<open>
  Claim C6. In the table a load returns: a row whose city cell was \<open>-\<close> has the
  province of the input as its city; and \<open>sub_city\<close> is the city of the returned row
  (the substituted one), except that it is the province when that city is the literal
  \<open>from other city\<close>.
\<close>

theorem city_and_sub_city:
  assumes "load_cases_data env rows = Inr out" and "i < length rows"
  shows "(csv_city (rows ! i) = Some ''-'' \<longrightarrow> city (out ! i) = csv_province (rows ! i))
       \<and> (csv_city (rows ! i) \<noteq> Some ''-'' \<longrightarrow> city (out ! i) = csv_city (rows ! i))
       \<and> (city (out ! i) = Some ''from other city''
            \<longrightarrow> sub_city (out ! i) = csv_province (rows ! i))
       \<and> (city (out ! i) \<noteq> Some ''from other city''
            \<longrightarrow> sub_city (out ! i) = city (out ! i))"
  using load_cases_data_row(3,4) [OF assms] by simp

theorem city_and_sub_city_witness:
  "load_cases_data pandas_iso example_cases = Inr example_cases_loaded
   \<and> (1::nat) < length example_cases
   \<and> csv_city (example_cases ! 1) = Some ''-''
   \<and> csv_province (example_cases ! 1) = Some ''Seoul''
   \<and> city (example_cases_loaded ! 1) = Some ''Seoul''
   \<and> sub_city (example_cases_loaded ! 1) = Some ''Seoul''
   \<and> (2::nat) < length example_cases
   \<and> csv_city (example_cases ! 2) = Some ''from other city''
   \<and> csv_province (example_cases ! 2) = Some ''Busan''
   \<and> city (example_cases_loaded ! 2) = Some ''from other city''
   \<and> sub_city (example_cases_loaded ! 2) = Some ''Busan''"
proof -
  have l: "(1::nat) < length example_cases" "(2::nat) < length example_cases"
    by (simp_all add: example_cases_def)
  have c: "csv_city (example_cases ! 1) = Some ''-''"
    "csv_province (example_cases ! 1) = Some ''Seoul''"
    "csv_city (example_cases ! 2) = Some ''from other city''"
    "csv_province (example_cases ! 2) = Some ''Busan''"
    by (simp_all add: example_cases_def)
  from city_and_sub_city [OF example_cases_load l(1)] c
  have r1: "city (example_cases_loaded ! 1) = Some ''Seoul''"
    "sub_city (example_cases_loaded ! 1) = Some ''Seoul''"
    by simp_all
  from city_and_sub_city [OF example_cases_load l(2)] c
  have r2: "city (example_cases_loaded ! 2) = Some ''from other city''"
    "sub_city (example_cases_loaded ! 2) = Some ''Busan''"
    by simp_all
  from example_cases_load l c r1 r2 show ?thesis
    by simp
qed

section \<open>The time series expander: differences\<close>

lemma length_diff_from [simp]: "length (diff_from p xs) = length xs"
  by (induction xs arbitrary: p) auto

lemma length_diff [simp]: "length (diff xs) = length xs"
  by (simp add: diff_def split: list.splits)

lemma nth_diff_from:
  "k < length xs \<Longrightarrow> diff_from p xs ! k = sub_cell (xs ! k) (if k = 0 then p else xs ! (k - 1))"
proof (induction xs arbitrary: p k)
  case Nil
  then show ?case by simp
next
  case (Cons x xs)
  then show ?case by (cases k) (auto simp: nth_Cons')
qed

lemma nth_diff:
  "k < length xs \<Longrightarrow> diff xs ! k = (if k = 0 then None else sub_cell (xs ! k) (xs ! (k - 1)))"
  by (cases xs; cases k) (auto simp: diff_def nth_diff_from nth_Cons')

lemma length_group_diff [simp]:
  "length ks = length xs \<Longrightarrow> length (group_diff seen ks xs) = length xs"
  by (induction seen ks xs rule: group_diff.induct) (auto split: option.splits)

lemma last_row_less: "last_row g ks = Some j \<Longrightarrow> j < length ks \<and> ks ! j = Some g"
  by (induction ks arbitrary: j) (auto split: option.splits if_splits)

lemma last_row_None: "last_row g ks = None \<longleftrightarrow> Some g \<notin> set ks"
  by (induction ks) (auto split: option.splits)

lemma last_row_is_last:
  "last_row g ks = Some j \<Longrightarrow> j < i \<Longrightarrow> i < length ks \<Longrightarrow> ks ! i \<noteq> Some g"
proof (induction ks arbitrary: j i)
  case Nil
  then show ?case by simp
next
  case (Cons k ks)
  show ?case
  proof (cases "last_row g ks")
    case None
    then have "Some g \<notin> set ks" by (simp add: last_row_None)
    moreover from Cons.prems None have "j = 0" by (auto split: if_splits)
    ultimately show ?thesis using Cons.prems by (cases i) (auto dest: nth_mem)
  next
    case (Some j')
    with Cons.prems have j: "j = Suc j'" by simp
    with Cons.prems obtain i' where i: "i = Suc i'" by (cases i) auto
    from Cons.IH [OF Some, of i'] Cons.prems j i show ?thesis by simp
  qed
qed

lemma seen_after_last_row:
  "length ks = length xs \<Longrightarrow>
   seen_after seen ks xs g =
     (case last_row g ks of None \<Rightarrow> seen g | Some j \<Rightarrow> Some (xs ! j))"
proof (induction ks arbitrary: seen xs)
  case Nil
  then show ?case by simp
next
  case (Cons k ks)
  then obtain x xs' where xs: "xs = x # xs'" by (cases xs) auto
  with Cons.prems have len: "length ks = length xs'" by simp
  show ?case
  proof (cases k)
    case None
    with Cons.IH [OF len, of seen] xs show ?thesis
      by (simp split: option.splits)
  next
    case (Some g')
    define S where "S = seen(g' \<mapsto> x)"
    have S: "S g = (if g = g' then Some x else seen g)"
      by (simp add: S_def)
    have "seen_after seen (k # ks) xs g = seen_after S ks xs' g"
      by (simp add: Some xs S_def)
    also have "\<dots> = (case last_row g ks of None \<Rightarrow> S g | Some j \<Rightarrow> Some (xs' ! j))"
      by (rule Cons.IH [OF len])
    also have "\<dots> = (case last_row g (k # ks) of None \<Rightarrow> seen g | Some j \<Rightarrow> Some (xs ! j))"
      using Some xs S by (auto split: option.splits)
    finally show ?thesis .
  qed
qed

lemma nth_group_diff:
  "length ks = length xs \<Longrightarrow> k < length xs \<Longrightarrow>
   group_diff seen ks xs ! k =
     (case ks ! k of
        None \<Rightarrow> None
      | Some g \<Rightarrow>
          (case seen_after seen (take k ks) (take k xs) g of
             None \<Rightarrow> None
           | Some p \<Rightarrow> sub_cell (xs ! k) p))"
proof (induction ks arbitrary: seen xs k)
  case Nil
  then show ?case by simp
next
  case (Cons kk ks)
  then obtain x xs' where xs: "xs = x # xs'" by (cases xs) auto
  with Cons.prems have len: "length ks = length xs'" by simp
  show ?case
  proof (cases k)
    case 0
    with xs show ?thesis by (cases kk) (auto split: option.splits)
  next
    case (Suc k')
    with Cons.prems xs have k': "k' < length xs'" by simp
    show ?thesis
    proof (cases kk)
      case None
      with Cons.IH [OF len k', of seen] xs Suc show ?thesis
        by (simp cong: option.case_cong)
    next
      case (Some g')
      define S where "S = seen(g' \<mapsto> x)"
      have "group_diff seen (kk # ks) xs ! k = group_diff S ks xs' ! k'"
        by (simp add: Some xs Suc S_def)
      also have "\<dots> =
          (case ks ! k' of
             None \<Rightarrow> None
           | Some g \<Rightarrow>
               (case seen_after S (take k' ks) (take k' xs') g of
                  None \<Rightarrow> None
                | Some p \<Rightarrow> sub_cell (xs' ! k') p))"
        by (rule Cons.IH [OF len k'])
      also have "\<dots> =
          (case (kk # ks) ! k of
             None \<Rightarrow> None
           | Some g \<Rightarrow>
               (case seen_after seen (take k (kk # ks)) (take k xs) g of
                  None \<Rightarrow> None
                | Some p \<Rightarrow> sub_cell (xs ! k) p))"
        by (simp add: Some xs Suc S_def cong: option.case_cong)
      finally show ?thesis .
    qed
  qed
qed

lemma nth_group_diff_empty:
  assumes "length ks = length xs" and "k < length xs"
  shows "group_diff Map.empty ks xs ! k =
     (case prev_row ks k of None \<Rightarrow> None | Some j \<Rightarrow> sub_cell (xs ! k) (xs ! j))"
proof (cases "ks ! k")
  case None
  with assms show ?thesis by (simp add: nth_group_diff prev_row_def)
next
  case (Some g)
  have len: "length (take k ks) = length (take k xs)" using assms by simp
  show ?thesis
  proof (cases "last_row g (take k ks)")
    case None
    with Some assms show ?thesis
      by (simp add: nth_group_diff prev_row_def seen_after_last_row [OF len])
  next
    case (Some j)
    then have "j < k" using last_row_less [OF Some] assms by simp
    with Some \<open>ks ! k = Some g\<close> assms show ?thesis
      by (simp add: nth_group_diff prev_row_def seen_after_last_row [OF len])
  qed
qed

lemma prev_row_Some_iff:
  assumes "k < length ks"
  shows "prev_row ks k = Some j \<longleftrightarrow>
     (j < k \<and> ks ! k \<noteq> None \<and> ks ! j = ks ! k \<and> (\<forall>i. j < i \<and> i < k \<longrightarrow> ks ! i \<noteq> ks ! k))"
proof (cases "ks ! k")
  case None
  then show ?thesis by (simp add: prev_row_def)
next
  case (Some g)
  show ?thesis
  proof
    assume "prev_row ks k = Some j"
    with Some have l: "last_row g (take k ks) = Some j" by (simp add: prev_row_def)
    from last_row_less [OF l] assms have "j < k" "ks ! j = Some g" by auto
    moreover have "ks ! i \<noteq> Some g" if "j < i" "i < k" for i
      using last_row_is_last [OF l, of i] that assms by simp
    ultimately show "j < k \<and> ks ! k \<noteq> None \<and> ks ! j = ks ! k
        \<and> (\<forall>i. j < i \<and> i < k \<longrightarrow> ks ! i \<noteq> ks ! k)"
      using Some by simp
  next
    assume r: "j < k \<and> ks ! k \<noteq> None \<and> ks ! j = ks ! k
        \<and> (\<forall>i. j < i \<and> i < k \<longrightarrow> ks ! i \<noteq> ks ! k)"
    then have "Some g \<in> set (take k ks)"
      using Some assms by (auto simp: in_set_conv_nth intro!: exI [of _ j])
    then obtain j' where l: "last_row g (take k ks) = Some j'"
      using last_row_None [of g "take k ks"] by (cases "last_row g (take k ks)") auto
    from last_row_less [OF l] assms have j': "j' < k" "ks ! j' = Some g" by auto
    have "\<not> j < j'" using r j' Some by auto
    moreover have "\<not> j' < j" using last_row_is_last [OF l, of j] r Some assms by auto
    ultimately have "j' = j" by simp
    with l Some show "prev_row ks k = Some j" by (simp add: prev_row_def)
  qed
qed

lemma select_columns_Inr:
  "select_columns cols cs = Inr sel \<Longrightarrow>
   map fst sel = cs \<and> (\<forall>(c, col) \<in> set sel. map_of cols c = Some col)"
  by (induction cs arbitrary: sel) (auto split: option.splits sum.splits)

lemma diff_columns_Inr:
  "diff_columns ks sel = Inr ds \<Longrightarrow>
   map fst ds = map fst sel
   \<and> (\<forall>(c, d) \<in> set ds.
         (\<exists>xs. (c, Counts xs) \<in> set sel
            \<and> d = (case ks of None \<Rightarrow> diff xs | Some keys \<Rightarrow> group_diff Map.empty keys xs))
         \<or> (\<exists>ss. (c, Labels ss) \<in> set sel \<and> d = map (\<lambda>s. None) ss))"
proof (induction ks sel arbitrary: ds rule: diff_columns.induct)
  case (1 ks)
  then show ?case by simp
next
  case (2 ks c ss sel)
  from "2.prems" obtain ds' where
    no: "\<not> subtracts_strings ss"
    and ds': "diff_columns ks sel = Inr ds'"
    and ds: "ds = (c, map (\<lambda>s. None) ss) # ds'"
    by (auto split: sum.splits if_splits)
  from "2.IH" [OF no ds'] show ?case
    unfolding ds by fastforce
next
  case (3 ks c xs sel)
  from "3.prems" obtain ds' where
    ds': "diff_columns ks sel = Inr ds'"
    and ds: "ds = (c, (case ks of None \<Rightarrow> diff xs
                       | Some keys \<Rightarrow> group_diff Map.empty keys xs)) # ds'"
    by (auto split: sum.splits)
  from "3.IH" [OF ds'] show ?case
    unfolding ds by fastforce
qed

lemma diff_table_Inr:
  assumes "diff_table df expand grouping = Inr diffs"
  shows "map fst diffs = expand"
    and "\<forall>(c, ds) \<in> set diffs.
           (\<exists>xs. map_of (columns df) c = Some (Counts xs) \<and> ds = diff_in df grouping xs)
           \<or> (\<exists>ss. map_of (columns df) c = Some (Labels ss) \<and> ds = map (\<lambda>s. None) ss)"
    and "\<forall>g. grouping = Some g \<longrightarrow> map_of (columns df) g \<noteq> None"
proof -
  from assms obtain sel ks where
    sel: "select_columns (columns df) expand = Inr sel"
    and ds: "diff_columns ks sel = Inr diffs"
    and ks: "ks = (case grouping of None \<Rightarrow> None
                   | Some g \<Rightarrow> map_option keys_of (map_of (columns df) g))"
    and g: "\<forall>g. grouping = Some g \<longrightarrow> map_of (columns df) g \<noteq> None"
    by (auto simp: diff_table_def split: option.splits sum.splits)
  from select_columns_Inr [OF sel] diff_columns_Inr [OF ds]
  show "map fst diffs = expand" by simp
  show "\<forall>(c, ds) \<in> set diffs.
           (\<exists>xs. map_of (columns df) c = Some (Counts xs) \<and> ds = diff_in df grouping xs)
           \<or> (\<exists>ss. map_of (columns df) c = Some (Labels ss) \<and> ds = map (\<lambda>s. None) ss)"
  proof (clarify)
    fix c d assume cd: "(c, d) \<in> set diffs"
      and no: "\<not> (\<exists>ss. map_of (columns df) c = Some (Labels ss) \<and> d = map (\<lambda>s. None) ss)"
    from diff_columns_Inr [OF ds] cd consider
      xs where "(c, Counts xs) \<in> set sel"
        "d = (case ks of None \<Rightarrow> diff xs | Some keys \<Rightarrow> group_diff Map.empty keys xs)"
      | ss where "(c, Labels ss) \<in> set sel" "d = map (\<lambda>s. None) ss"
      by blast
    then show "\<exists>xs. map_of (columns df) c = Some (Counts xs) \<and> d = diff_in df grouping xs"
    proof cases
      case 1
      from select_columns_Inr [OF sel] 1(1) have "map_of (columns df) c = Some (Counts xs)"
        by auto
      moreover have "d = diff_in df grouping xs"
        using 1(2) ks g by (auto simp: diff_in_def split: option.splits)
      ultimately show ?thesis by blast
    next
      case 2
      from select_columns_Inr [OF sel] 2(1) have "map_of (columns df) c = Some (Labels ss)"
        by auto
      with 2(2) no show ?thesis by blast
    qed
  qed
  show "\<forall>g. grouping = Some g \<longrightarrow> map_of (columns df) g \<noteq> None" by (rule g)
qed

lemma astype_int_map_Some: "astype_int (map Some vs) = Inr vs"
  by (induction vs) auto

lemma astype_int_Inr: "astype_int xs = Inr vs \<longleftrightarrow> xs = map Some vs"
proof
  show "astype_int xs = Inr vs \<Longrightarrow> xs = map Some vs"
    by (induction xs arbitrary: vs rule: astype_int.induct) (auto split: sum.splits)
  show "xs = map Some vs \<Longrightarrow> astype_int xs = Inr vs"
    by (simp add: astype_int_map_Some)
qed

lemma astype_int_Inl: "astype_int xs = Inl e \<Longrightarrow> e = ValueError"
  by (induction xs rule: astype_int.induct) (auto split: sum.splits)

lemma astype_int_None: "None \<in> set xs \<Longrightarrow> astype_int xs = Inl ValueError"
  by (induction xs rule: astype_int.induct) (auto split: sum.splits dest: astype_int_Inl)

lemma astype_int_columns_Inr:
  "astype_int_columns cols = Inr ints \<Longrightarrow>
   map fst ints = map fst cols \<and> (\<forall>(c, vs) \<in> set ints. (c, map Some vs) \<in> set cols)"
proof (induction cols arbitrary: ints rule: astype_int_columns.induct)
  case 1
  then show ?case by simp
next
  case (2 c xs rest)
  from "2.prems" obtain vs ints' where
    vs: "astype_int xs = Inr vs"
    and ints': "astype_int_columns rest = Inr ints'"
    and ints: "ints = (c, vs) # ints'"
    by (auto split: sum.splits)
  from vs have "xs = map Some vs" by (simp add: astype_int_Inr)
  with "2.IH" [OF vs ints'] show ?case
    unfolding ints by fastforce
qed

lemma astype_int_columns_Inl: "astype_int_columns cols = Inl e \<Longrightarrow> e = ValueError"
  by (induction cols rule: astype_int_columns.induct)
     (auto split: sum.splits dest: astype_int_Inl)

lemma astype_int_columns_None:
  "(c, xs) \<in> set cols \<Longrightarrow> None \<in> set xs \<Longrightarrow> astype_int_columns cols = Inl ValueError"
  by (induction cols rule: astype_int_columns.induct)
     (auto split: sum.splits dest: astype_int_Inl astype_int_columns_Inl simp: astype_int_None)

lemma update_time_df_steps:
  assumes "update_time_df df expand ratio grouping = Inr (df', expand', res)"
  shows "\<exists>diffs ints n d q.
      diff_table df expand grouping = Inr diffs
    \<and> distinct expand
    \<and> astype_int_columns (map (fillna (columns df)) diffs) = Inr ints
    \<and> map_of ints (fst ratio) = Some n \<and> map_of ints (snd ratio) = Some d
    \<and> divide_columns (columns df) ratio = Inr q
    \<and> expand' = expand @ [ratio_column_name ratio]
    \<and> df' = \<lparr> out_index = index df, out_columns = old_table df expand ratio q \<rparr>
    \<and> res = \<lparr> out_index = index df,
              out_columns = old_table df expand ratio q @ new_table ratio ints n d \<rparr>"
  using assms
  by (auto simp: update_time_df_def Let_def old_table_def new_table_def
      split: sum.splits option.splits prod.splits if_splits)

lemma well_formed_length:
  assumes "well_formed df" and "map_of (columns df) c = Some col"
  shows "column_length col = length (index df)"
proof -
  from assms(2) have "(c, col) \<in> set (columns df)" by (rule map_of_SomeD)
  with assms(1) show ?thesis
    by (auto simp: well_formed_def list_all_iff)
qed

lemma length_keys_of [simp]: "length (keys_of col) = column_length col"
  by (cases col) auto

lemma diff_in_nth:
  assumes "well_formed df" and "map_of (columns df) c = Some (Counts xs)"
    and "\<forall>g. grouping = Some g \<longrightarrow> map_of (columns df) g \<noteq> None"
  shows "length (diff_in df grouping xs) = length xs"
    and "k < length xs \<Longrightarrow> diff_in df grouping xs ! k =
           (case previous_row df grouping k of
              None \<Rightarrow> None
            | Some j \<Rightarrow> sub_cell (xs ! k) (xs ! j))"
    and "k < length xs \<Longrightarrow> previous_row df grouping k = Some j \<Longrightarrow> j < k"
proof -
  have len: "length xs = length (index df)"
    using well_formed_length [OF assms(1,2)] by simp
  show "length (diff_in df grouping xs) = length xs"
  proof (cases grouping)
    case None
    then show ?thesis by (simp add: diff_in_def)
  next
    case (Some g)
    with assms(3) obtain gc where gc: "map_of (columns df) g = Some gc" by auto
    from well_formed_length [OF assms(1) gc] len Some gc show ?thesis
      by (simp add: diff_in_def)
  qed
  show "diff_in df grouping xs ! k =
           (case previous_row df grouping k of
              None \<Rightarrow> None
            | Some j \<Rightarrow> sub_cell (xs ! k) (xs ! j))" if k: "k < length xs"
  proof (cases grouping)
    case None
    with k show ?thesis by (simp add: diff_in_def previous_row_def nth_diff)
  next
    case (Some g)
    with assms(3) obtain gc where gc: "map_of (columns df) g = Some gc" by auto
    from well_formed_length [OF assms(1) gc] len
    have "length (keys_of gc) = length xs" by simp
    from nth_group_diff_empty [OF this k] Some gc show ?thesis
      by (simp add: diff_in_def previous_row_def)
  qed
  show "j < k" if k: "k < length xs" and p: "previous_row df grouping k = Some j"
  proof (cases grouping)
    case None
    with p show ?thesis by (auto simp: previous_row_def split: if_splits)
  next
    case (Some g)
    with assms(3) obtain gc where gc: "map_of (columns df) g = Some gc" by auto
    from well_formed_length [OF assms(1) gc] len k
    have "k < length (keys_of gc)" by simp
    from prev_row_Some_iff [OF this, of j] p Some gc show ?thesis
      by (simp add: previous_row_def)
  qed
qed

text \<open>A filled column that casts has no missing cell in the input column.\<close>

lemma filled_cast:
  assumes "map Some vs = map2 fill_cell ds xs" and "length ds = length xs"
    and "\<And>k. k < length xs \<Longrightarrow> xs ! k = None \<Longrightarrow> ds ! k = None"
  shows "\<exists>ys. xs = map Some ys \<and> length vs = length ys
           \<and> (\<forall>k < length ys. vs ! k = (case ds ! k of None \<Rightarrow> ys ! k | Some v \<Rightarrow> v))"
proof -
  have len: "length vs = length xs"
    using arg_cong [OF assms(1), of length] assms(2) by simp
  have row: "fill_cell (ds ! k) (xs ! k) = Some (vs ! k)" if "k < length xs" for k
    using arg_cong [OF assms(1), of "\<lambda>l. l ! k"] that assms(2) len by simp
  have some: "xs ! k \<noteq> None" if "k < length xs" for k
    using row [OF that] assms(3) [OF that] by (cases "xs ! k") (auto simp: fill_cell_def)
  define ys where "ys = map the xs"
  have xs: "xs = map Some ys"
    using some by (auto simp: ys_def intro!: nth_equalityI)
  moreover have "length vs = length ys" using len by (simp add: ys_def)
  moreover have "vs ! k = (case ds ! k of None \<Rightarrow> ys ! k | Some v \<Rightarrow> v)" if "k < length ys" for k
  proof -
    from that have k: "k < length xs" by (simp add: ys_def)
    from row [OF k] xs that show ?thesis
      by (auto simp: fill_cell_def split: option.splits)
  qed
  ultimately show ?thesis by blast
qed

lemma well_formed_labels:
  assumes "well_formed df" and "map_of (columns df) c = Some (Labels ss)"
  shows "ss \<noteq> []"
proof -
  from assms(2) have "(c, Labels ss) \<in> set (columns df)" by (rule map_of_SomeD)
  with assms(1) have "list_ex (\<lambda>c. c \<noteq> None) ss"
    by (auto simp: well_formed_def list_all_iff)
  then show ?thesis by auto
qed

text \<open>
  Once the cast of line 173 has gone through, every name of \<open>expand\<close> is a count
  column, and its integers are the filled differences.
\<close>

lemma cast_cells:
  assumes wf: "well_formed df"
    and diffs: "diff_table df expand grouping = Inr diffs"
    and ints: "astype_int_columns (map (fillna (columns df)) diffs) = Inr ints"
  shows "map fst ints = expand"
    and "\<forall>(c, vs) \<in> set ints. \<exists>xs. map_of (columns df) c = Some (Counts xs)
          \<and> map Some vs = map2 fill_cell (diff_in df grouping xs) xs"
proof -
  have fst_fill: "map fst (map (fillna (columns df)) diffs) = map fst diffs"
    by (auto simp: fillna_def split: prod.splits)
  from astype_int_columns_Inr [OF ints] diff_table_Inr(1) [OF diffs] fst_fill
  show "map fst ints = expand" by simp
  show "\<forall>(c, vs) \<in> set ints. \<exists>xs. map_of (columns df) c = Some (Counts xs)
          \<and> map Some vs = map2 fill_cell (diff_in df grouping xs) xs"
  proof (clarify)
    fix c vs assume "(c, vs) \<in> set ints"
    with astype_int_columns_Inr [OF ints]
    have "(c, map Some vs) \<in> set (map (fillna (columns df)) diffs)" by auto
    then obtain c' ds where cd: "(c', ds) \<in> set diffs"
      and f: "fillna (columns df) (c', ds) = (c, map Some vs)"
      by auto
    from f have c': "c' = c" by (auto simp: fillna_def)
    from diff_table_Inr(2) [OF diffs] cd c' consider
      xs where "map_of (columns df) c = Some (Counts xs)" "ds = diff_in df grouping xs"
      | ss where "map_of (columns df) c = Some (Labels ss)" "ds = map (\<lambda>s. None) ss"
      by blast
    then show "\<exists>xs. map_of (columns df) c = Some (Counts xs)
          \<and> map Some vs = map2 fill_cell (diff_in df grouping xs) xs"
    proof cases
      case 1
      with f c' show ?thesis by (auto simp: fillna_def)
    next
      case 2
      with f c' have "map Some vs = map (\<lambda>s. None) ss" by (auto simp: fillna_def)
      then have "length vs = length ss"
        by (rule map_eq_imp_length_eq)
      moreover from well_formed_labels [OF wf 2(1)] have "ss \<noteq> []" .
      ultimately obtain v vs' s ss' where "vs = v # vs'" "ss = s # ss'"
        by (cases vs; cases ss) auto
      with \<open>map Some vs = map (\<lambda>s. None) ss\<close> show ?thesis by simp
    qed
  qed
qed

lemma update_time_df_Inr:
  assumes "well_formed df"
    and "update_time_df df expand ratio grouping = Inr (df', expand', res)"
  shows "\<exists>ints n d q.
      map fst ints = expand
    \<and> (\<forall>(c, vs) \<in> set ints. \<exists>xs. map_of (columns df) c = Some (Counts xs)
          \<and> map Some vs = map2 fill_cell (diff_in df grouping xs) xs)
    \<and> (\<forall>g. grouping = Some g \<longrightarrow> map_of (columns df) g \<noteq> None)
    \<and> map_of ints (fst ratio) = Some n \<and> map_of ints (snd ratio) = Some d
    \<and> divide_columns (columns df) ratio = Inr q
    \<and> expand' = expand @ [ratio_column_name ratio]
    \<and> df' = \<lparr> out_index = index df, out_columns = old_table df expand ratio q \<rparr>
    \<and> res = \<lparr> out_index = index df,
              out_columns = old_table df expand ratio q @ new_table ratio ints n d \<rparr>"
proof -
  from update_time_df_steps [OF assms(2)] obtain diffs ints n d q where
    diffs: "diff_table df expand grouping = Inr diffs"
    and ints: "astype_int_columns (map (fillna (columns df)) diffs) = Inr ints"
    and r: "map_of ints (fst ratio) = Some n" "map_of ints (snd ratio) = Some d"
      "divide_columns (columns df) ratio = Inr q"
      "expand' = expand @ [ratio_column_name ratio]"
      "df' = \<lparr> out_index = index df, out_columns = old_table df expand ratio q \<rparr>"
      "res = \<lparr> out_index = index df,
              out_columns = old_table df expand ratio q @ new_table ratio ints n d \<rparr>"
    by blast
  from cast_cells [OF assms(1) diffs ints] diff_table_Inr(3) [OF diffs] r show ?thesis
    by blast
qed

lemma fold_rename_column:
  "fold rename_column cs cols = map (\<lambda>(n, c). (renamed cs n, c)) cols"
proof (induction cs arbitrary: cols)
  case Nil
  then show ?case by (simp add: renamed_def)
next
  case (Cons c cs)
  have "fold rename_column (c # cs) cols
      = map (\<lambda>(n, x). (renamed cs n, x)) (rename_column c cols)"
    by (simp add: Cons.IH)
  also have "\<dots> = map (\<lambda>(n, x). (renamed (c # cs) n, x)) cols"
    by (auto simp: rename_column_def renamed_def)
  finally show ?case .
qed

lemma renamed_other: "n \<notin> set cs \<Longrightarrow> renamed cs n = n"
  by (induction cs) (auto simp: renamed_def)

lemma renamed_accumulated:
  "n \<in> set cs \<Longrightarrow> ''accumulated_'' @ n \<notin> set cs \<Longrightarrow> renamed cs n = ''accumulated_'' @ n"
proof (induction cs)
  case Nil
  then show ?case by simp
next
  case (Cons c cs)
  show ?case
  proof (cases "n = c")
    case True
    have "renamed (c # cs) n = renamed cs (''accumulated_'' @ c)"
      using True by (simp add: renamed_def)
    also have "\<dots> = ''accumulated_'' @ c"
      using Cons.prems True by (intro renamed_other) auto
    finally show ?thesis using True by simp
  next
    case False
    then have "renamed (c # cs) n = renamed cs n"
      by (simp add: renamed_def)
    with Cons False show ?thesis by auto
  qed
qed

lemma in_new_table:
  assumes "(c, vs) \<in> set ints" and "c \<noteq> ratio_column_name ratio"
  shows "(''new_'' @ c, Column (Counts (map Some vs))) \<in> set (new_table ratio ints n d)"
proof -
  let ?cols = "map (\<lambda>(c, vs). (c, Column (Counts (map Some vs)))) ints"
  from assms(1) have "(c, Column (Counts (map Some vs))) \<in> set ?cols" by force
  with assms(2) have "(c, Column (Counts (map Some vs)))
      \<in> set (set_column (ratio_column_name ratio) (Ratio (zip (map Some n) (map Some d))) ?cols)"
    by (force simp: set_column_def)
  then show ?thesis
    by (force simp: new_table_def add_prefix_def)
qed

lemma in_old_table:
  assumes "map_of (columns df) c = Some col" and "c \<noteq> ratio_column_name ratio"
  shows "(renamed (expand @ [ratio_column_name ratio]) c, Column col)
           \<in> set (old_table df expand ratio q)"
proof -
  let ?cols = "map (\<lambda>(c, col). (c, Column col)) (columns df)"
  from assms(1) have "(c, col) \<in> set (columns df)" by (rule map_of_SomeD)
  then have "(c, Column col) \<in> set ?cols" by force
  with assms(2) have "(c, Column col) \<in> set (set_column (ratio_column_name ratio) (Ratio q) ?cols)"
    by (force simp: set_column_def)
  then have "(\<lambda>(n, x). (renamed (expand @ [ratio_column_name ratio]) n, x)) (c, Column col)
      \<in> (\<lambda>(n, x). (renamed (expand @ [ratio_column_name ratio]) n, x))
          ` set (set_column (ratio_column_name ratio) (Ratio q) ?cols)"
    by (rule imageI)
  then show ?thesis
    by (simp del: fold_append add: old_table_def fold_rename_column)
qed

text \<open>What a call that returns has computed for a column named in \<open>expand\<close>.\<close>

lemma expanded_column:
  assumes wf: "well_formed df"
    and ok: "update_time_df df expand ratio grouping = Inr (df', expand', res)"
    and c: "c \<in> set expand"
    and cr: "c \<noteq> ratio_column_name ratio"
  shows "\<exists>ys news. map_of (columns df) c = Some (Counts (map Some ys))
        \<and> (''new_'' @ c, Column (Counts (map Some news))) \<in> set (out_columns res)
        \<and> (renamed expand' c, Column (Counts (map Some ys))) \<in> set (out_columns res)
        \<and> length ys = length (index df)
        \<and> length news = length ys
        \<and> (\<forall>k < length ys. news ! k =
              (case previous_row df grouping k of
                 None \<Rightarrow> ys ! k
               | Some j \<Rightarrow> ys ! k - ys ! j))
        \<and> (\<forall>k j. k < length ys \<and> previous_row df grouping k = Some j \<longrightarrow> j < k)"
proof -
  from update_time_df_Inr [OF wf ok] obtain ints n d q where
    names: "map fst ints = expand"
    and cells: "\<forall>(c, vs) \<in> set ints. \<exists>xs. map_of (columns df) c = Some (Counts xs)
          \<and> map Some vs = map2 fill_cell (diff_in df grouping xs) xs"
    and g: "\<forall>g. grouping = Some g \<longrightarrow> map_of (columns df) g \<noteq> None"
    and e: "expand' = expand @ [ratio_column_name ratio]"
    and res: "res = \<lparr> out_index = index df,
              out_columns = old_table df expand ratio q @ new_table ratio ints n d \<rparr>"
    by blast
  from c names have "c \<in> fst ` set ints" by (metis list.set_map)
  then obtain vs where vs: "(c, vs) \<in> set ints" by force
  with cells obtain xs where xs: "map_of (columns df) c = Some (Counts xs)"
    and f: "map Some vs = map2 fill_cell (diff_in df grouping xs) xs"
    by blast
  note d = diff_in_nth [OF wf xs g]
  have none: "diff_in df grouping xs ! k = None" if "k < length xs" "xs ! k = None" for k
    using d(2) [OF that(1)] that(2) by (simp add: sub_cell_def split: option.splits)
  from filled_cast [OF f d(1) none] obtain ys where
    ys: "xs = map Some ys" and len: "length vs = length ys"
    and v: "\<forall>k < length ys. vs ! k =
              (case diff_in df grouping xs ! k of None \<Rightarrow> ys ! k | Some v \<Rightarrow> v)"
    by blast
  have row: "vs ! k = (case previous_row df grouping k of
                 None \<Rightarrow> ys ! k
               | Some j \<Rightarrow> ys ! k - ys ! j)" if k: "k < length ys" for k
  proof (cases "previous_row df grouping k")
    case None
    with v k d(2) [of k] ys show ?thesis by simp
  next
    case (Some j)
    with d(3) [of k j] k ys have "j < k" by simp
    with v k d(2) [of k] ys Some show ?thesis by (simp add: sub_cell_def)
  qed
  from in_new_table [OF vs cr] res
  have "(''new_'' @ c, Column (Counts (map Some vs))) \<in> set (out_columns res)" by simp
  moreover from in_old_table [OF xs cr] res e ys
  have "(renamed expand' c, Column (Counts (map Some ys))) \<in> set (out_columns res)" by simp
  moreover have "length ys = length (index df)"
    using well_formed_length [OF wf xs] ys by simp
  moreover have "\<forall>k j. k < length ys \<and> previous_row df grouping k = Some j \<longrightarrow> j < k"
    using d(3) ys by simp
  ultimately show ?thesis
    using xs ys len row by blast
qed

lemma upt_split3:
  assumes "j < k"
  shows "[0..<Suc k] = [0..<Suc j] @ [Suc j..<k] @ [k]"
proof -
  from assms have "Suc j \<le> k" by simp
  then have "[0..<k] = [0..<Suc j] @ [Suc j..<k]"
    by (metis le_add_diff_inverse upt_add_eq_append zero_le)
  then show ?thesis by simp
qed

lemma group_rows_step:
  assumes wf: "well_formed df"
    and g: "\<forall>g. grouping = Some g \<longrightarrow> map_of (columns df) g \<noteq> None"
    and k: "k < length (index df)"
  shows "group_rows df grouping k =
           (case previous_row df grouping k of
              None \<Rightarrow> [k]
            | Some j \<Rightarrow> group_rows df grouping j @ [k])"
proof (cases grouping)
  case None
  then show ?thesis
    by (cases k) (simp_all add: group_rows_def previous_row_def)
next
  case (Some gname)
  with g obtain gc where gc: "map_of (columns df) gname = Some gc" by auto
  define ks where "ks = keys_of gc"
  have len: "k < length ks"
    using well_formed_length [OF wf gc] k by (simp add: ks_def)
  show ?thesis
  proof (cases "ks ! k")
    case None
    then show ?thesis
      using Some gc by (simp add: group_rows_def previous_row_def prev_row_def ks_def)
  next
    case key: (Some key)
    let ?P = "\<lambda>j. ks ! j = Some key"
    have rows: "group_rows df grouping k = filter ?P [0..<Suc k]"
      using Some gc key by (simp add: group_rows_def ks_def)
    show ?thesis
    proof (cases "prev_row ks k")
      case None
      then have "last_row key (take k ks) = None"
        using key by (simp add: prev_row_def)
      then have "Some key \<notin> set (take k ks)" by (simp add: last_row_None)
      then have "\<not> ?P j" if "j < k" for j
        using that len by (auto simp: in_set_conv_nth)
      then have "filter ?P [0..<k] = []" by (auto simp: filter_empty_conv)
      with rows key have "group_rows df grouping k = [k]" by simp
      with None Some gc show ?thesis
        by (simp add: previous_row_def ks_def)
    next
      case j: (Some j)
      from prev_row_Some_iff [OF len, of j] j key
      have jk: "j < k" and kj: "ks ! j = Some key"
        and between: "\<forall>i. j < i \<and> i < k \<longrightarrow> ks ! i \<noteq> Some key"
        by auto
      have "filter ?P [Suc j..<k] = []"
        using between by (auto simp: filter_empty_conv)
      moreover have "filter ?P [0..<Suc k]
          = filter ?P [0..<Suc j] @ filter ?P [Suc j..<k] @ filter ?P [k]"
        by (simp only: upt_split3 [OF jk] filter_append)
      ultimately have "filter ?P [0..<Suc k] = filter ?P [0..<Suc j] @ [k]"
        using key by simp
      moreover have "group_rows df grouping j = filter ?P [0..<Suc j]"
        using Some gc kj by (simp add: group_rows_def ks_def)
      ultimately show ?thesis
        using rows j Some gc by (simp add: previous_row_def ks_def)
    qed
  qed
qed

lemma group_prefix_sum:
  assumes step: "\<And>k. k < n \<Longrightarrow> group_rows df grouping k =
           (case previous_row df grouping k of
              None \<Rightarrow> [k]
            | Some j \<Rightarrow> group_rows df grouping j @ [k])"
    and row: "\<And>k. k < n \<Longrightarrow> news ! k =
              (case previous_row df grouping k of
                 None \<Rightarrow> ys ! k
               | Some j \<Rightarrow> ys ! k - ys ! j)"
    and prev: "\<And>k j. k < n \<Longrightarrow> previous_row df grouping k = Some j \<Longrightarrow> j < k"
    and k: "k < n"
  shows "sum_list (map (\<lambda>j. news ! j) (group_rows df grouping k)) = (ys ! k :: int)"
  using k
proof (induction k rule: less_induct)
  case (less k)
  show ?case
  proof (cases "previous_row df grouping k")
    case None
    with step [OF less.prems] row [OF less.prems] show ?thesis by simp
  next
    case (Some j)
    from prev [OF less.prems Some] have jk: "j < k" .
    with less.prems have "j < n" by simp
    from less.IH [OF jk this] step [OF less.prems] row [OF less.prems] Some
    show ?thesis by simp
  qed
qed

lemma divide_columns_Inr:
  assumes "divide_columns cols ratio = Inr q"
  shows "\<exists>n d. map_of cols (fst ratio) = Some (Counts n)
           \<and> map_of cols (snd ratio) = Some (Counts d) \<and> q = zip n d"
  using assms
  by (auto simp: divide_columns_def split: option.splits column.splits)

lemma set_set_column: "set (set_column name col cols) \<subseteq> set cols \<union> {(name, col)}"
  by (auto simp: set_column_def split: if_splits)

lemma returned_lengths:
  assumes wf: "well_formed df"
    and ok: "update_time_df df expand ratio grouping = Inr (df', expand', res)"
  shows "out_index res = index df"
    and "out_index df' = index df"
    and "\<forall>(n, col) \<in> set (out_columns res). out_column_length col = length (index df)"
proof -
  from update_time_df_Inr [OF wf ok] obtain ints n d q where
    cells: "\<forall>(c, vs) \<in> set ints. \<exists>xs. map_of (columns df) c = Some (Counts xs)
          \<and> map Some vs = map2 fill_cell (diff_in df grouping xs) xs"
    and g: "\<forall>g. grouping = Some g \<longrightarrow> map_of (columns df) g \<noteq> None"
    and n: "map_of ints (fst ratio) = Some n" and d: "map_of ints (snd ratio) = Some d"
    and q: "divide_columns (columns df) ratio = Inr q"
    and df': "df' = \<lparr> out_index = index df, out_columns = old_table df expand ratio q \<rparr>"
    and res: "res = \<lparr> out_index = index df,
              out_columns = old_table df expand ratio q @ new_table ratio ints n d \<rparr>"
    by blast
  show "out_index res = index df" "out_index df' = index df"
    using res df' by simp_all
  have ints_len: "length vs = length (index df)" if "(c, vs) \<in> set ints" for c vs
  proof -
    from cells that obtain xs where xs: "map_of (columns df) c = Some (Counts xs)"
      and f: "map Some vs = map2 fill_cell (diff_in df grouping xs) xs"
      by blast
    from arg_cong [OF f, of length] diff_in_nth(1) [OF wf xs g] well_formed_length [OF wf xs]
    show ?thesis by simp
  qed
  have old: "out_column_length col = length (index df)"
    if "(m, col) \<in> set (old_table df expand ratio q)" for m col
  proof -
    from that obtain m' where
      "(m', col) \<in> set (set_column (ratio_column_name ratio) (Ratio q)
          (map (\<lambda>(c, col). (c, Column col)) (columns df)))"
      by (auto simp del: fold_append simp: old_table_def fold_rename_column)
    with set_set_column have
      "(m', col) \<in> set (map (\<lambda>(c, col). (c, Column col)) (columns df)) \<or> col = Ratio q"
      by fastforce
    then show ?thesis
    proof
      assume "(m', col) \<in> set (map (\<lambda>(c, col). (c, Column col)) (columns df))"
      then obtain c where "(m', c) \<in> set (columns df)" and "col = Column c" by auto
      with wf show ?thesis by (auto simp: well_formed_def list_all_iff)
    next
      assume col: "col = Ratio q"
      from divide_columns_Inr [OF q] obtain n0 d0 where
        n0: "map_of (columns df) (fst ratio) = Some (Counts n0)"
        and d0: "map_of (columns df) (snd ratio) = Some (Counts d0)"
        and z: "q = zip n0 d0"
        by blast
      from well_formed_length [OF wf n0] well_formed_length [OF wf d0] col z
      show ?thesis by simp
    qed
  qed
  have new: "out_column_length col = length (index df)"
    if "(m, col) \<in> set (new_table ratio ints n d)" for m col
  proof -
    from that obtain m' where
      "(m', col) \<in> set (set_column (ratio_column_name ratio)
          (Ratio (zip (map Some n) (map Some d)))
          (map (\<lambda>(c, vs). (c, Column (Counts (map Some vs)))) ints))"
      by (auto simp: new_table_def add_prefix_def)
    with set_set_column have
      "(m', col) \<in> set (map (\<lambda>(c, vs). (c, Column (Counts (map Some vs)))) ints)
       \<or> col = Ratio (zip (map Some n) (map Some d))"
      by fastforce
    then show ?thesis
    proof
      assume "(m', col) \<in> set (map (\<lambda>(c, vs). (c, Column (Counts (map Some vs)))) ints)"
      then obtain vs where "(m', vs) \<in> set ints" and "col = Column (Counts (map Some vs))"
        by auto
      with ints_len show ?thesis by simp
    next
      assume col: "col = Ratio (zip (map Some n) (map Some d))"
      from n d have "(fst ratio, n) \<in> set ints" "(snd ratio, d) \<in> set ints"
        by (auto dest: map_of_SomeD)
      with ints_len col show ?thesis by simp
    qed
  qed
  show "\<forall>(n, col) \<in> set (out_columns res). out_column_length col = length (index df)"
    using old new res by auto
qed

section \<open>The time series expander: the claims\<close>

lemma example_time_call:
  "update_time_df example_time [''confirmed'', ''deceased''] (''deceased'', ''confirmed'') None
     = Inr (example_time_after,
            [''confirmed'', ''deceased'', ''deceased_to_confirmed_ratio''],
            example_time_returned)"
  by code_simp

lemma example_grouped_call:
  "update_time_df example_grouped [''confirmed'', ''deceased''] (''deceased'', ''confirmed'')
       (Some ''province'')
     = Inr (example_grouped_after,
            [''confirmed'', ''deceased'', ''deceased_to_confirmed_ratio''],
            example_grouped_returned)"
  by code_simp

lemma example_missing_call:
  "update_time_df example_missing [''confirmed'', ''deceased''] (''deceased'', ''confirmed'') None
     = Inl ValueError"
  by code_simp

lemma example_ratio_call:
  "update_time_df example_ratio
       [''confirmed'', ''deceased'', ''deceased_to_confirmed_ratio'']
       (''deceased'', ''confirmed'') None
     = Inr (example_ratio_after,
            [''confirmed'', ''deceased'', ''deceased_to_confirmed_ratio'',
             ''deceased_to_confirmed_ratio''],
            example_ratio_returned)"
  by code_simp

lemma example_well_formed:
  "well_formed example_time" "well_formed example_grouped" "well_formed example_missing"
  "well_formed example_ratio"
  by (simp_all add: well_formed_def exact_count_def example_time_def example_grouped_def
      example_missing_def example_ratio_def)

lemma example_ratio_name:
  "ratio_column_name (''deceased'', ''confirmed'') = ''deceased_to_confirmed_ratio''"
  by (simp add: ratio_column_name_def)




text \<open>
  Claim C4 (as stated, fails on the code). With a grouping column the differences are
  taken within each group, so the running sum of a \<open>new_\<close> column down the table does
  not give the accumulated column: in the example by province, the new confirmed counts
  of the first two rows sum to 30, and the accumulated count of the second row is 20.
\<close>

theorem prefix_sum_grouped_counterexample:
  "update_time_df example_grouped [''confirmed'', ''deceased''] (''deceased'', ''confirmed'')
       (Some ''province'')
     = Inr (example_grouped_after,
            [''confirmed'', ''deceased'', ''deceased_to_confirmed_ratio''],
            example_grouped_returned)
   \<and> (''new_confirmed'', Column (Counts (map Some [10, 20, 5, 2])))
        \<in> set (out_columns example_grouped_returned)
   \<and> (''accumulated_confirmed'', Column (Counts (map Some [10, 20, 15, 22])))
        \<in> set (out_columns example_grouped_returned)
   \<and> sum_list (take (Suc 1) [10, 20, 5, 2]) \<noteq> ([10, 20, 15, 22] ! 1 :: int)"
proof -
  have "(''new_confirmed'', Column (Counts (map Some [10, 20, 5, 2])))
        \<in> set (out_columns example_grouped_returned)"
    and "(''accumulated_confirmed'', Column (Counts (map Some [10, 20, 15, 22])))
        \<in> set (out_columns example_grouped_returned)"
    by (simp_all add: example_grouped_returned_def)
  moreover have "sum_list (take (Suc 1) [10, 20, 5, 2]) \<noteq> ([10, 20, 15, 22] ! 1 :: int)"
    by simp
  ultimately show ?thesis
    using example_grouped_call by simp
qed

text \<open>
  Claim C4, amended. Take a table whose column names are not repeated, whose columns are
  as long as its index, whose count cells are integers below \<open>2 ^ 52\<close> in magnitude or
  missing, and whose label columns each hold a label (\<open>well_formed\<close>). When the
  expander returns, the returned table has the index of the input and every column of
  it has as many rows; and for every column \<open>c\<close> named in \<open>expand\<close>, other than a
  column that bears the ratio column's own name, the sum of the \<open>new_c\<close> values over
  the rows of row \<open>k\<close>'s group up to and including \<open>k\<close> (over all rows up to \<open>k\<close>
  when no grouping is given) is the value at row \<open>k\<close> of the column \<open>c\<close> under the
  name the renaming loop has given it (\<open>accumulated_c\<close>, unless that name is in the
  list too and is renamed again).
\<close>

theorem group_prefix_sums_rebuild_accumulated:
  assumes "well_formed df"
    and "update_time_df df expand ratio grouping = Inr (df', expand', res)"
  shows "out_index res = index df
       \<and> (\<forall>(n, col) \<in> set (out_columns res). out_column_length col = length (index df))
       \<and> (\<forall>c \<in> set expand. c \<noteq> ratio_column_name ratio \<longrightarrow> (\<exists>ys news.
              (renamed expand' c, Column (Counts (map Some ys))) \<in> set (out_columns res)
            \<and> (''new_'' @ c, Column (Counts (map Some news))) \<in> set (out_columns res)
            \<and> length ys = length (index df) \<and> length news = length (index df)
            \<and> (\<forall>k < length (index df).
                  sum_list (map (\<lambda>j. news ! j) (group_rows df grouping k)) = ys ! k)))"
proof -
  from update_time_df_Inr [OF assms]
  have g: "\<forall>g. grouping = Some g \<longrightarrow> map_of (columns df) g \<noteq> None"
    by blast
  have "\<exists>ys news.
              (renamed expand' c, Column (Counts (map Some ys))) \<in> set (out_columns res)
            \<and> (''new_'' @ c, Column (Counts (map Some news))) \<in> set (out_columns res)
            \<and> length ys = length (index df) \<and> length news = length (index df)
            \<and> (\<forall>k < length (index df).
                  sum_list (map (\<lambda>j. news ! j) (group_rows df grouping k)) = ys ! k)"
    if c: "c \<in> set expand" and cr: "c \<noteq> ratio_column_name ratio" for c
  proof -
    from expanded_column [OF assms c cr] obtain ys news where
      acc: "(renamed expand' c, Column (Counts (map Some ys))) \<in> set (out_columns res)"
      and new: "(''new_'' @ c, Column (Counts (map Some news))) \<in> set (out_columns res)"
      and len: "length ys = length (index df)" "length news = length ys"
      and row: "\<forall>k < length ys. news ! k =
              (case previous_row df grouping k of
                 None \<Rightarrow> ys ! k
               | Some j \<Rightarrow> ys ! k - ys ! j)"
      and prev: "\<forall>k j. k < length ys \<and> previous_row df grouping k = Some j \<longrightarrow> j < k"
      by blast
    have "sum_list (map (\<lambda>j. news ! j) (group_rows df grouping k)) = ys ! k"
      if k: "k < length (index df)" for k
    proof (rule group_prefix_sum [where n = "length (index df)"])
      show "group_rows df grouping k' =
           (case previous_row df grouping k' of
              None \<Rightarrow> [k']
            | Some j \<Rightarrow> group_rows df grouping j @ [k'])" if "k' < length (index df)" for k'
        by (rule group_rows_step [OF assms(1) g that])
      show "news ! k' =
              (case previous_row df grouping k' of
                 None \<Rightarrow> ys ! k'
               | Some j \<Rightarrow> ys ! k' - ys ! j)" if "k' < length (index df)" for k'
        using row that len by simp
      show "j < k'" if "k' < length (index df)" "previous_row df grouping k' = Some j" for k' j
        using prev that len by simp
      show "k < length (index df)" by (rule k)
    qed
    with acc new len show ?thesis by auto
  qed
  with returned_lengths(1,3) [OF assms] show ?thesis
    by blast
qed

theorem group_prefix_sums_witness:
  "well_formed example_grouped
   \<and> update_time_df example_grouped [''confirmed'', ''deceased''] (''deceased'', ''confirmed'')
         (Some ''province'')
       = Inr (example_grouped_after,
              [''confirmed'', ''deceased'', ''deceased_to_confirmed_ratio''],
              example_grouped_returned)
   \<and> ''confirmed'' \<in> set [''confirmed'', ''deceased'']
   \<and> ''confirmed'' \<noteq> ratio_column_name (''deceased'', ''confirmed'')
   \<and> out_index example_grouped_returned = index example_grouped
   \<and> renamed [''confirmed'', ''deceased'', ''deceased_to_confirmed_ratio''] ''confirmed''
       = ''accumulated_confirmed''
   \<and> group_rows example_grouped (Some ''province'') 3 = [1, 3]
   \<and> sum_list (map (\<lambda>j. [10, 20, 5, 2] ! j) (group_rows example_grouped (Some ''province'') 3))
       = ([10, 20, 15, 22] ! 3 :: int)
   \<and> (\<exists>ys news.
          (''accumulated_confirmed'', Column (Counts (map Some ys)))
             \<in> set (out_columns example_grouped_returned)
        \<and> (''new_'' @ ''confirmed'', Column (Counts (map Some news)))
             \<in> set (out_columns example_grouped_returned)
        \<and> sum_list (map (\<lambda>j. news ! j) (group_rows example_grouped (Some ''province'') 3))
             = ys ! 3)"
proof -
  have c: "''confirmed'' \<in> set [''confirmed'', ''deceased'']" by simp
  have r: "''confirmed'' \<noteq> ratio_column_name (''deceased'', ''confirmed'')"
    by (simp add: example_ratio_name)
  have n: "renamed [''confirmed'', ''deceased'', ''deceased_to_confirmed_ratio''] ''confirmed''
       = ''accumulated_confirmed''"
    by (simp add: renamed_def)
  have rows: "group_rows example_grouped (Some ''province'') 3 = [1, 3]"
    by code_simp
  have s: "sum_list (map (\<lambda>j. [10, 20, 5, 2] ! j) (group_rows example_grouped (Some ''province'') 3))
       = ([10, 20, 15, 22] ! 3 :: int)"
    unfolding rows by simp
  have l: "(3::nat) < length (index example_grouped)"
    by (simp add: example_grouped_def)
  note t = group_prefix_sums_rebuild_accumulated [OF example_well_formed(2) example_grouped_call]
  from t have i: "out_index example_grouped_returned = index example_grouped" by blast
  from t have "\<forall>c \<in> set [''confirmed'', ''deceased''].
          c \<noteq> ratio_column_name (''deceased'', ''confirmed'') \<longrightarrow> (\<exists>ys news.
              (renamed [''confirmed'', ''deceased'', ''deceased_to_confirmed_ratio''] c,
                 Column (Counts (map Some ys))) \<in> set (out_columns example_grouped_returned)
            \<and> (''new_'' @ c, Column (Counts (map Some news)))
                 \<in> set (out_columns example_grouped_returned)
            \<and> length ys = length (index example_grouped)
            \<and> length news = length (index example_grouped)
            \<and> (\<forall>k < length (index example_grouped).
                  sum_list (map (\<lambda>j. news ! j) (group_rows example_grouped (Some ''province'') k))
                    = ys ! k))"
    by blast
  with c r have "\<exists>ys news.
              (renamed [''confirmed'', ''deceased'', ''deceased_to_confirmed_ratio''] ''confirmed'',
                 Column (Counts (map Some ys))) \<in> set (out_columns example_grouped_returned)
            \<and> (''new_'' @ ''confirmed'', Column (Counts (map Some news)))
                 \<in> set (out_columns example_grouped_returned)
            \<and> length ys = length (index example_grouped)
            \<and> length news = length (index example_grouped)
            \<and> (\<forall>k < length (index example_grouped).
                  sum_list (map (\<lambda>j. news ! j) (group_rows example_grouped (Some ''province'') k))
                    = ys ! k)"
    by blast
  then obtain ys news where
    "(''accumulated_confirmed'', Column (Counts (map Some ys)))
             \<in> set (out_columns example_grouped_returned)"
    "(''new_'' @ ''confirmed'', Column (Counts (map Some news)))
             \<in> set (out_columns example_grouped_returned)"
    "\<forall>k < length (index example_grouped).
                  sum_list (map (\<lambda>j. news ! j) (group_rows example_grouped (Some ''province'') k))
                    = ys ! k"
    unfolding n by blast
  with l have "\<exists>ys news.
          (''accumulated_confirmed'', Column (Counts (map Some ys)))
             \<in> set (out_columns example_grouped_returned)
        \<and> (''new_'' @ ''confirmed'', Column (Counts (map Some news)))
             \<in> set (out_columns example_grouped_returned)
        \<and> sum_list (map (\<lambda>j. news ! j) (group_rows example_grouped (Some ''province'') 3))
             = ys ! 3"
    by blast
  with example_well_formed(2) example_grouped_call c r i n rows s show ?thesis
    by blast
qed








text \<open>
  Claim C2 (as stated, fails on the code). The expander changes both of its inputs. In
  the example, the list \<open>expand\<close> comes back with the ratio column's name appended, and
  the table \<open>df\<close> comes back with two columns renamed and the ratio column added.
\<close>

theorem inputs_changed_counterexample:
  "update_time_df example_time [''confirmed'', ''deceased''] (''deceased'', ''confirmed'') None
     = Inr (example_time_after,
            [''confirmed'', ''deceased'', ''deceased_to_confirmed_ratio''],
            example_time_returned)
   \<and> [''confirmed'', ''deceased'', ''deceased_to_confirmed_ratio''] \<noteq> [''confirmed'', ''deceased'']
   \<and> out_columns example_time_after
        \<noteq> map (\<lambda>(n, col). (n, Column col)) (columns example_time)"
proof -
  have "out_columns example_time_after
        \<noteq> map (\<lambda>(n, col). (n, Column col)) (columns example_time)"
    by (simp add: example_time_after_def example_time_def)
  with example_time_call show ?thesis by simp
qed

text \<open>
  Claim C2, amended. On a table whose column names are not repeated, a call that returns
  has changed both inputs in place (lines 178 to 181). The list \<open>expand\<close> has the name
  of the ratio column appended. The table \<open>df\<close> keeps its index and its columns in
  their order. When no column bears the ratio column's name, every column keeps its
  cells and the ratio column, the quotient of the two count columns of \<open>ratio\<close>, is
  appended; when a column bears that name, the quotient replaces the cells of that
  column, every other column keeps its cells, and no column is added. Each column is
  then renamed as the loop over the extended list renames it (\<open>renamed\<close>): no change
  for a name that is not in the list, the prefix \<open>accumulated_\<close> for a name of the list
  whose prefixed name is not in the list as well. The table returned is a new one, on
  the same index: the columns of the changed \<open>df\<close> followed by the \<open>new_\<close> columns.
\<close>

theorem inputs_changed_in_place:
  assumes "distinct (map fst (columns df))"
    and "update_time_df df expand ratio grouping = Inr (df', expand', res)"
  shows "expand' = expand @ [ratio_column_name ratio]
       \<and> out_index df' = index df
       \<and> (\<exists>q. (\<exists>n d. map_of (columns df) (fst ratio) = Some (Counts n)
                    \<and> map_of (columns df) (snd ratio) = Some (Counts d) \<and> q = zip n d)
            \<and> out_columns df' =
                (if ratio_column_name ratio \<in> fst ` set (columns df)
                 then map (\<lambda>(n, col). (renamed expand' n,
                              if n = ratio_column_name ratio then Ratio q else Column col))
                        (columns df)
                 else map (\<lambda>(n, col). (renamed expand' n, col))
                        (map (\<lambda>(n, col). (n, Column col)) (columns df)
                           @ [(ratio_column_name ratio, Ratio q)])))
       \<and> out_index res = index df
       \<and> (\<exists>new. out_columns res = out_columns df' @ new
              \<and> list_all (\<lambda>(n, col). take 4 n = ''new_'') new)
       \<and> (\<forall>n. n \<notin> set expand' \<longrightarrow> renamed expand' n = n)
       \<and> (\<forall>n. n \<in> set expand' \<and> ''accumulated_'' @ n \<notin> set expand'
              \<longrightarrow> renamed expand' n = ''accumulated_'' @ n)"
proof -
  from update_time_df_steps [OF assms(2)] obtain ints n d q where
    q: "divide_columns (columns df) ratio = Inr q"
    and e: "expand' = expand @ [ratio_column_name ratio]"
    and df': "df' = \<lparr> out_index = index df, out_columns = old_table df expand ratio q \<rparr>"
    and res: "res = \<lparr> out_index = index df,
              out_columns = old_table df expand ratio q @ new_table ratio ints n d \<rparr>"
    by blast
  let ?rn = "ratio_column_name ratio"
  let ?cols = "map (\<lambda>(n, col). (n, Column col)) (columns df)"
  have names: "fst ` set ?cols = fst ` set (columns df)" by force
  have old: "old_table df expand ratio q =
      map (\<lambda>(n, col). (renamed expand' n, col)) (set_column ?rn (Ratio q) ?cols)"
    by (simp del: fold_append add: old_table_def fold_rename_column e)
  have cols: "out_columns df' =
                (if ?rn \<in> fst ` set (columns df)
                 then map (\<lambda>(n, col). (renamed expand' n,
                              if n = ?rn then Ratio q else Column col))
                        (columns df)
                 else map (\<lambda>(n, col). (renamed expand' n, col))
                        (?cols @ [(?rn, Ratio q)]))"
  proof (cases "?rn \<in> fst ` set (columns df)")
    case True
    with names have "set_column ?rn (Ratio q) ?cols
        = map (\<lambda>(n, c). if n = ?rn then (n, Ratio q) else (n, c)) ?cols"
      by (simp add: set_column_def)
    also have "map (\<lambda>(n, col). (renamed expand' n, col)) \<dots>
        = map (\<lambda>(n, col). (renamed expand' n, if n = ?rn then Ratio q else Column col))
            (columns df)"
      by (auto simp: case_prod_beta)
    finally show ?thesis
      using True df' old by simp
  next
    case False
    with names have "set_column ?rn (Ratio q) ?cols = ?cols @ [(?rn, Ratio q)]"
      by (simp add: set_column_def)
    with False df' old show ?thesis by simp
  qed
  have new: "list_all (\<lambda>(n, col). take 4 n = ''new_'') (new_table ratio ints n d)"
    by (auto simp: new_table_def add_prefix_def list_all_iff)
  from divide_columns_Inr [OF q] have
    "\<exists>n d. map_of (columns df) (fst ratio) = Some (Counts n)
          \<and> map_of (columns df) (snd ratio) = Some (Counts d) \<and> q = zip n d" .
  with cols have "\<exists>q. (\<exists>n d. map_of (columns df) (fst ratio) = Some (Counts n)
                    \<and> map_of (columns df) (snd ratio) = Some (Counts d) \<and> q = zip n d)
            \<and> out_columns df' =
                (if ?rn \<in> fst ` set (columns df)
                 then map (\<lambda>(n, col). (renamed expand' n,
                              if n = ?rn then Ratio q else Column col))
                        (columns df)
                 else map (\<lambda>(n, col). (renamed expand' n, col))
                        (?cols @ [(?rn, Ratio q)]))"
    by blast
  moreover have "\<exists>new. out_columns res = out_columns df' @ new
              \<and> list_all (\<lambda>(n, col). take 4 n = ''new_'') new"
    using df' res new by simp
  moreover have "\<forall>n. n \<notin> set expand' \<longrightarrow> renamed expand' n = n"
    using renamed_other by blast
  moreover have "\<forall>n. n \<in> set expand' \<and> ''accumulated_'' @ n \<notin> set expand'
              \<longrightarrow> renamed expand' n = ''accumulated_'' @ n"
    using renamed_accumulated by blast
  ultimately show ?thesis
    using e df' res by simp
qed

text \<open>
  The two cases on the examples: the table without a ratio column gains one, and in the
  table that has a column of that name the quotient takes the place of its cells 3, 7.
\<close>

theorem inputs_changed_witness:
  "distinct (map fst (columns example_time))
   \<and> update_time_df example_time [''confirmed'', ''deceased''] (''deceased'', ''confirmed'') None
       = Inr (example_time_after,
              [''confirmed'', ''deceased'', ''deceased_to_confirmed_ratio''],
              example_time_returned)
   \<and> [''confirmed'', ''deceased'', ''deceased_to_confirmed_ratio'']
       = [''confirmed'', ''deceased''] @ [ratio_column_name (''deceased'', ''confirmed'')]
   \<and> out_index example_time_after = index example_time
   \<and> map snd (out_columns example_time_after)
       = map (Column \<circ> snd) (columns example_time)
           @ [Ratio [(Some 1, Some 10), (Some 1, Some 15), (Some 2, Some 23)]]
   \<and> map fst (out_columns example_time_after)
       = [''test'', ''accumulated_confirmed'', ''accumulated_deceased'',
          ''accumulated_deceased_to_confirmed_ratio'']
   \<and> distinct (map fst (columns example_ratio))
   \<and> update_time_df example_ratio
         [''confirmed'', ''deceased'', ''deceased_to_confirmed_ratio'']
         (''deceased'', ''confirmed'') None
       = Inr (example_ratio_after,
              [''confirmed'', ''deceased'', ''deceased_to_confirmed_ratio'',
               ''deceased_to_confirmed_ratio''],
              example_ratio_returned)
   \<and> map_of (columns example_ratio) ''deceased_to_confirmed_ratio''
       = Some (Counts [Some 3, Some 7])
   \<and> out_columns example_ratio_after
       = [(''accumulated_confirmed'', Column (Counts [Some 10, Some 10])),
          (''accumulated_deceased'', Column (Counts [Some 1, Some 1])),
          (''accumulated_deceased_to_confirmed_ratio'',
           Ratio [(Some 1, Some 10), (Some 1, Some 10)])]"
proof -
  have d: "distinct (map fst (columns example_time))"
    by (simp add: example_time_def)
  note t = inputs_changed_in_place [OF d example_time_call]
  from t have e: "[''confirmed'', ''deceased'', ''deceased_to_confirmed_ratio'']
       = [''confirmed'', ''deceased''] @ [ratio_column_name (''deceased'', ''confirmed'')]"
    by blast
  from t have i: "out_index example_time_after = index example_time" by blast
  have s: "map snd (out_columns example_time_after)
       = map (Column \<circ> snd) (columns example_time)
           @ [Ratio [(Some 1, Some 10), (Some 1, Some 15), (Some 2, Some 23)]]"
    by (simp add: example_time_after_def example_time_def)
  have f: "map fst (out_columns example_time_after)
       = [''test'', ''accumulated_confirmed'', ''accumulated_deceased'',
          ''accumulated_deceased_to_confirmed_ratio'']"
    by (simp add: example_time_after_def)
  have d2: "distinct (map fst (columns example_ratio))"
    by (simp add: example_ratio_def)
  have m: "map_of (columns example_ratio) ''deceased_to_confirmed_ratio''
       = Some (Counts [Some 3, Some 7])"
    by (simp add: example_ratio_def)
  have a: "out_columns example_ratio_after
       = [(''accumulated_confirmed'', Column (Counts [Some 10, Some 10])),
          (''accumulated_deceased'', Column (Counts [Some 1, Some 1])),
          (''accumulated_deceased_to_confirmed_ratio'',
           Ratio [(Some 1, Some 10), (Some 1, Some 10)])]"
    by (simp add: example_ratio_after_def)
  from d example_time_call e i s f d2 example_ratio_call m a show ?thesis
    by blast
qed

end
